theory Spec2Isabelle
  imports Complex_Main
begin

section \<open>JavaScript values used by scripts/main.js\<close>

text \<open>
  The script works with JavaScript numbers and strings. Its numbers are the results of
  \<open>parseInt\<close> and of decrementing them. An integer of magnitude at most
  \<open>2^53 - 1\<close> is a double that is represented exactly and printed in plain decimal
  notation: these are the values \<open>Num n\<close> with \<open>safe n\<close>. Every other number (a larger
  integer after rounding, an infinity) is \<open>Huge\<close>: the model knows that it is a number and
  not \<open>NaN\<close>, and tracks neither its value nor its rendering. Where the script compares
  or prints such a number the model stops with \<open>NotTracked\<close> (see the results below).

  A string is modelled by the bytes of its UTF-8 encoding. The script searches strings
  for ASCII patterns only (\<open>gen:\<close>, \<open>minecraft:\<close>, the comma, digits, signs, \<open>0x\<close>), which
  UTF-8 keeps apart from the bytes of every other character; the white space that
  \<open>parseInt\<close> skips is recognised in its encoded form.
\<close>

datatype jsnum = NaN | Num int | Huge

definition MAX_SAFE_INTEGER :: int where
  "MAX_SAFE_INTEGER = 9007199254740991"

definition safe :: "int \<Rightarrow> bool" where
  "safe n = (- MAX_SAFE_INTEGER \<le> n \<and> n \<le> MAX_SAFE_INTEGER)"

definition num :: "int \<Rightarrow> jsnum" where
  "num n = (if safe n then Num n else Huge)"

fun isNaN :: "jsnum \<Rightarrow> bool" where
  "isNaN NaN = True"
| "isNaN (Num _) = False"
| "isNaN Huge = False"

text \<open>
  \<open>count -= 1\<close> and \<open>count <= 0\<close>. Every comparison with \<open>NaN\<close> is false; the
  comparison of a number that is not tracked has no value in the model.
\<close>

fun js_dec :: "jsnum \<Rightarrow> jsnum" where
  "js_dec NaN = NaN"
| "js_dec (Num n) = (if safe n then num (n - 1) else Huge)"
| "js_dec Huge = Huge"

fun js_le_zero :: "jsnum \<Rightarrow> bool option" where
  "js_le_zero NaN = Some False"
| "js_le_zero (Num n) = (if safe n then Some (n \<le> 0) else None)"
| "js_le_zero Huge = None"

text \<open>
  \<open>String(n)\<close> and \<open>${n}\<close>: the decimal rendering of a safe integer, \<open>"NaN"\<close> for
  \<open>NaN\<close>, and no value in the model for a number that is not tracked.
\<close>

function digits :: "int \<Rightarrow> string" where
  "digits n =
     (if n < 10 then [char_of (48 + n)]
      else digits (n div 10) @ [char_of (48 + n mod 10)])"
  by pat_completeness auto
termination
  by (relation "measure nat") auto

declare digits.simps [simp del]

definition decimal :: "int \<Rightarrow> string" where
  "decimal i = (if i < 0 then CHR ''-'' # digits (- i) else digits i)"

fun tracked :: "jsnum \<Rightarrow> bool" where
  "tracked NaN = True"
| "tracked (Num i) = safe i"
| "tracked Huge = False"

fun String_js :: "jsnum \<Rightarrow> string option" where
  "String_js NaN = Some ''NaN''"
| "String_js (Num i) = (if safe i then Some (decimal i) else None)"
| "String_js Huge = None"

text \<open>
  \<open>parseInt(s)\<close> with no radix: skip leading white space, read an optional sign,
  switch to radix 16 after a \<open>0x\<close> or \<open>0X\<close> prefix, read the longest run of digits
  of the radix; no digit at all gives \<open>NaN\<close>. The white space is that of the language:
  TAB, LF, VT, FF, CR, SP, and in UTF-8 the two bytes of U+00A0 and the three bytes of
  U+1680, U+2000 to U+200A, U+2028, U+2029, U+202F, U+205F, U+3000 and U+FEFF.
\<close>

definition is_ws :: "char \<Rightarrow> bool" where
  "is_ws c = (c = CHR '' '' \<or> c = CHR 0x09 \<or> c = CHR 0x0A \<or> c = CHR 0x0B \<or> c = CHR 0x0C \<or> c = CHR 0x0D)"

definition is_ws2 :: "char \<Rightarrow> char \<Rightarrow> bool" where
  "is_ws2 a b = (a = CHR 0xC2 \<and> b = CHR 0xA0)"

definition is_ws3 :: "char \<Rightarrow> char \<Rightarrow> char \<Rightarrow> bool" where
  "is_ws3 a b c =
     ((a = CHR 0xE1 \<and> b = CHR 0x9A \<and> c = CHR 0x80) \<or>
      (a = CHR 0xE2 \<and> b = CHR 0x80 \<and>
         ((128 \<le> (of_char c :: int) \<and> (of_char c :: int) \<le> 138) \<or>
          c = CHR 0xA8 \<or> c = CHR 0xA9 \<or> c = CHR 0xAF)) \<or>
      (a = CHR 0xE2 \<and> b = CHR 0x81 \<and> c = CHR 0x9F) \<or>
      (a = CHR 0xE3 \<and> b = CHR 0x80 \<and> c = CHR 0x80) \<or>
      (a = CHR 0xEF \<and> b = CHR 0xBB \<and> c = CHR 0xBF))"

fun skip_ws :: "string \<Rightarrow> string" where
  "skip_ws (a # b # c # s) =
     (if is_ws a then skip_ws (b # c # s)
      else if is_ws2 a b then skip_ws (c # s)
      else if is_ws3 a b c then skip_ws s
      else a # b # c # s)"
| "skip_ws [a, b] = (if is_ws a then skip_ws [b] else if is_ws2 a b then [] else [a, b])"
| "skip_ws [a] = (if is_ws a then [] else [a])"
| "skip_ws [] = []"

definition digit_val :: "char \<Rightarrow> int option" where
  "digit_val c =
     (let k = (of_char c :: int) in
      if 48 \<le> k \<and> k \<le> 57 then Some (k - 48)
      else if 97 \<le> k \<and> k \<le> 102 then Some (k - 87)
      else if 65 \<le> k \<and> k \<le> 70 then Some (k - 55)
      else None)"

definition is_digit :: "int \<Rightarrow> char \<Rightarrow> bool" where
  "is_digit R c = (case digit_val c of None \<Rightarrow> False | Some v \<Rightarrow> v < R)"

definition digits_value :: "int \<Rightarrow> string \<Rightarrow> int" where
  "digits_value R Z = foldl (\<lambda>a c. a * R + (case digit_val c of None \<Rightarrow> 0 | Some v \<Rightarrow> v)) 0 Z"

definition parseInt :: "string \<Rightarrow> jsnum" where
  "parseInt s =
     (let s1 = skip_ws s;
          neg = (s1 \<noteq> [] \<and> hd s1 = CHR ''-'');
          s2 = (if s1 \<noteq> [] \<and> (hd s1 = CHR ''+'' \<or> hd s1 = CHR ''-'') then tl s1 else s1);
          hex = (take 2 s2 = ''0x'' \<or> take 2 s2 = ''0X'');
          R = (if hex then 16 else 10);
          s3 = (if hex then drop 2 s2 else s2);
          Z = takeWhile (is_digit R) s3
      in if Z = [] then NaN
         else num ((if neg then - 1 else 1) * digits_value R Z))"

text \<open>
  An array element or a form value may be \<open>undefined\<close> (\<open>None\<close>). \<open>parseInt\<close> first
  converts its argument to a string, and \<open>undefined\<close> converts to \<open>"undefined"\<close>.
\<close>

definition parseInt_opt :: "string option \<Rightarrow> jsnum" where
  "parseInt_opt v = parseInt (case v of None \<Rightarrow> ''undefined'' | Some s \<Rightarrow> s)"

definition nth_opt :: "'a list \<Rightarrow> nat \<Rightarrow> 'a option" where
  "nth_opt xs i = (if i < length xs then Some (xs ! i) else None)"

definition startsWith :: "string \<Rightarrow> string \<Rightarrow> bool" where
  "startsWith s p = (take (length p) s = p)"

text \<open>\<open>s.replace(pat, rep)\<close> with a string pattern replaces the first occurrence only.\<close>

fun js_replace :: "string \<Rightarrow> string \<Rightarrow> string \<Rightarrow> string" where
  "js_replace pat rep [] = (if pat = [] then rep else [])"
| "js_replace pat rep (c # cs) =
     (if startsWith (c # cs) pat then rep @ drop (length pat) (c # cs)
      else c # js_replace pat rep cs)"

text \<open>\<open>s.split(",")\<close>: the fields between commas; the empty string has one empty field.\<close>

fun split_acc :: "string \<Rightarrow> string \<Rightarrow> string list" where
  "split_acc acc [] = [rev acc]"
| "split_acc acc (c # cs) =
     (if c = CHR '','' then rev acc # split_acc [] cs else split_acc (c # acc) cs)"

definition split_comma :: "string \<Rightarrow> string list" where
  "split_comma s = split_acc [] s"

section \<open>Configuration: GeneratorSettings and the tag codec\<close>

record GeneratorSettings =
  ticks :: jsnum
  itemId :: "string option"
  itemCount :: jsnum

text \<open>The constructor parses the two numeric fields; \<open>fromFormValues\<close> reads the first three form values.\<close>

definition new_GeneratorSettings :: "string option \<Rightarrow> string option \<Rightarrow> string option \<Rightarrow> GeneratorSettings" where
  "new_GeneratorSettings t i c = \<lparr>ticks = parseInt_opt t, itemId = i, itemCount = parseInt_opt c\<rparr>"

definition fromFormValues :: "string list \<Rightarrow> GeneratorSettings" where
  "fromFormValues formValues =
     new_GeneratorSettings (nth_opt formValues 0) (nth_opt formValues 1) (nth_opt formValues 2)"

definition validate :: "GeneratorSettings \<Rightarrow> bool" where
  "validate s =
     (\<not> isNaN (ticks s) \<and>
      (case itemId s of None \<Rightarrow> False | Some i \<Rightarrow> startsWith i ''minecraft:'') \<and>
      \<not> isNaN (itemCount s))"

text \<open>
  The tag written by \<open>setUpArmorStand\<close> (a template literal; it has no value in the
  model when one of its numbers is not tracked) and the fields read back by
  \<open>processEntity\<close>: \<open>values[0]\<close>, \<open>values[1]\<close> and \<open>parseInt(values[2])\<close>.
\<close>

definition to_str :: "string option \<Rightarrow> string" where
  "to_str v = (case v of None \<Rightarrow> ''undefined'' | Some s \<Rightarrow> s)"

definition gen_tag :: "GeneratorSettings \<Rightarrow> int \<times> int \<times> int \<Rightarrow> string option" where
  "gen_tag s basePos =
     (case basePos of (bx, by, bz) \<Rightarrow>
        (case String_js (ticks s) of None \<Rightarrow> None | Some t \<Rightarrow>
        (case String_js (itemCount s) of None \<Rightarrow> None | Some c \<Rightarrow>
        (case String_js (num bx) of None \<Rightarrow> None | Some x \<Rightarrow>
        (case String_js (num by) of None \<Rightarrow> None | Some y \<Rightarrow>
        (case String_js (num bz) of None \<Rightarrow> None | Some z \<Rightarrow>
           Some (''gen:'' @ t @ '','' @ to_str (itemId s) @ '','' @ c
                   @ '','' @ x @ '','' @ y @ '','' @ z)))))))"

definition tag_values :: "string \<Rightarrow> string list" where
  "tag_values tag = split_comma (js_replace ''gen:'' [] tag)"

definition decode :: "string \<Rightarrow> jsnum \<times> string option \<times> jsnum" where
  "decode tag =
     (let values = tag_values tag
      in (parseInt_opt (nth_opt values 0), nth_opt values 1, parseInt_opt (nth_opt values 2)))"

section \<open>The host world\<close>

text \<open>
  The script runs against the host's scripting interface. The model keeps what the script
  reads and writes: per dimension the block type at each block position, the entities
  with their type, position, display label, tags and effects, the item entities spawned
  by \<open>spawnItem\<close>, and the messages broadcast with \<open>world.sendMessage\<close>. Block
  positions are integer triples; entity positions are triples of rationals (the script
  only adds integers and halves to block coordinates), and the block that contains a
  position is found by flooring, as \<open>Math.floor\<close> does in the script. A position whose
  block is \<open>None\<close> is not accessible (outside the world's height range or in a chunk
  that is not loaded): there \<open>getBlock\<close> gives no block and \<open>setBlockType\<close>,
  \<open>spawnEntity\<close> and \<open>spawnItem\<close> throw. An entity is referred to by its handle
  \<open>eid\<close>; \<open>kill\<close> removes it at once; entities do not move by themselves.
\<close>

datatype dimension = Nether | Overworld | TheEnd

definition DIMENSIONS :: "dimension list" where
  "DIMENSIONS = [Nether, Overworld, TheEnd]"

definition BARRIER_OFFSET :: int where
  "BARRIER_OFFSET = 99"

definition ITEM_SPAWN_OFFSET :: int where
  "ITEM_SPAWN_OFFSET = 98"

type_synonym bpos = "int \<times> int \<times> int"
type_synonym vec3 = "rat \<times> rat \<times> rat"

datatype GameMode = survival | creative | adventure | spectator

text \<open>
  The exceptions of the script and of the host. \<open>NotTracked\<close> is not one of them: it
  marks that the model stops, because the next statement compares or prints a number
  that is not tracked.
\<close>

datatype js_error = TypeError | LocationError | InvalidEntityError | FormError | NotTracked

text \<open>
  The message texts of the script, by meaning:
  \<open>GeneratorBlockMissing\<close> "removed because the generator block does not exist",
  \<open>InvalidGeneratorRemoved\<close> "the invalid generator was removed",
  \<open>InvalidItemGeneration\<close> "the generator was removed because an invalid item was to be generated",
  \<open>InvalidInput\<close> "the input values are invalid",
  \<open>FormFailed\<close> "showing the form failed: " followed by the error,
  \<open>CreativeOnly\<close> "generators can only be broken in creative mode".
\<close>

datatype message =
    GeneratorBlockMissing
  | InvalidGeneratorRemoved
  | InvalidItemGeneration
  | InvalidInput
  | FormFailed js_error
  | CreativeOnly

record entity =
  eid :: nat
  edim :: dimension
  typeId :: string
  location :: vec3
  nameTag :: string
  tags :: "string list"
  effects :: "(string \<times> nat) list"

record world =
  blocks :: "dimension \<times> bpos \<Rightarrow> string option"
  entities :: "entity list"
  items :: "(dimension \<times> (string \<times> int) \<times> vec3) list"
  broadcasts :: "message list"
  next_id :: nat

text \<open>
  \<open>new ItemStack(id, amount)\<close> belongs to the host: it gives the stack it builds, or
  \<open>None\<close> when it throws. It is a parameter of the tick processor, and is given the
  amount as the script parsed it (\<open>NaN\<close> and \<open>Huge\<close> included).
\<close>

type_synonym item_system = "string option \<Rightarrow> jsnum \<Rightarrow> (string \<times> int) option"

definition block_of :: "vec3 \<Rightarrow> bpos" where
  "block_of v = (case v of (vx, vy, vz) \<Rightarrow> (\<lfloor>vx\<rfloor>, \<lfloor>vy\<rfloor>, \<lfloor>vz\<rfloor>))"

definition vec_of :: "bpos \<Rightarrow> vec3" where
  "vec_of p = (case p of (bx, by, bz) \<Rightarrow> (of_int bx, of_int by, of_int bz))"

definition getBlock :: "world \<Rightarrow> dimension \<Rightarrow> vec3 \<Rightarrow> string option" where
  "getBlock w d v = blocks w (d, block_of v)"

definition setBlockType :: "world \<Rightarrow> dimension \<Rightarrow> vec3 \<Rightarrow> string \<Rightarrow> world option" where
  "setBlockType w d v t =
     (if blocks w (d, block_of v) = None then None
      else Some (w\<lparr>blocks := (blocks w)((d, block_of v) \<mapsto> t)\<rparr>))"

definition spawnEntity :: "world \<Rightarrow> dimension \<Rightarrow> string \<Rightarrow> vec3 \<Rightarrow> (nat \<times> world) option" where
  "spawnEntity w d ty v =
     (if blocks w (d, block_of v) = None then None
      else Some (next_id w,
        w\<lparr>entities := entities w @
             [\<lparr>eid = next_id w, edim = d, typeId = ty, location = v, nameTag = [], tags = [], effects = []\<rparr>],
           next_id := Suc (next_id w)\<rparr>))"

definition spawnItem :: "world \<Rightarrow> dimension \<Rightarrow> string \<times> int \<Rightarrow> vec3 \<Rightarrow> world option" where
  "spawnItem w d st v =
     (if blocks w (d, block_of v) = None then None
      else Some (w\<lparr>items := items w @ [(d, st, v)]\<rparr>))"

definition getEntities :: "world \<Rightarrow> dimension \<Rightarrow> entity list" where
  "getEntities w d = filter (\<lambda>e. edim e = d) (entities w)"

definition find_entity :: "world \<Rightarrow> nat \<Rightarrow> entity option" where
  "find_entity w i = find (\<lambda>e. eid e = i) (entities w)"

definition upd_entity :: "world \<Rightarrow> nat \<Rightarrow> (entity \<Rightarrow> entity) \<Rightarrow> world" where
  "upd_entity w i f = w\<lparr>entities := map (\<lambda>e. if eid e = i then f e else e) (entities w)\<rparr>"

definition kill :: "world \<Rightarrow> nat \<Rightarrow> world" where
  "kill w i = w\<lparr>entities := filter (\<lambda>e. eid e \<noteq> i) (entities w)\<rparr>"

definition sendMessage :: "world \<Rightarrow> message \<Rightarrow> world" where
  "sendMessage w m = w\<lparr>broadcasts := broadcasts w @ [m]\<rparr>"

definition hasTag :: "entity \<Rightarrow> string \<Rightarrow> bool" where
  "hasTag e t = (t \<in> set (tags e))"

definition addTag :: "string \<Rightarrow> entity \<Rightarrow> entity" where
  "addTag t e = (if t \<in> set (tags e) then e else e\<lparr>tags := tags e @ [t]\<rparr>)"

definition setNameTag :: "string \<Rightarrow> entity \<Rightarrow> entity" where
  "setNameTag n e = e\<lparr>nameTag := n\<rparr>"

definition addEffect :: "string \<Rightarrow> nat \<Rightarrow> entity \<Rightarrow> entity" where
  "addEffect name duration e =
     e\<lparr>effects := (name, duration) # filter (\<lambda>p. fst p \<noteq> name) (effects e)\<rparr>"

section \<open>Placement Setup: setUpArmorStand\<close>

text \<open>
  A function that may throw returns \<open>Inl (error, world)\<close>, the world being the state
  left behind by the statements that ran before the throw, or \<open>Inr world\<close>. With
  \<open>NotTracked\<close> in place of the error, the world is the state reached where the model
  stops.
\<close>

type_synonym result = "(js_error \<times> world) + world"

definition setUpArmorStand :: "world \<Rightarrow> dimension \<Rightarrow> bpos \<Rightarrow> GeneratorSettings \<Rightarrow> result" where
  "setUpArmorStand w dimension basePos settings =
     (case vec_of basePos of (px, py, pz) \<Rightarrow>
        (case setBlockType w dimension (px, py + of_int BARRIER_OFFSET, pz) ''minecraft:barrier'' of
           None \<Rightarrow> Inl (LocationError, w)
         | Some w1 \<Rightarrow>
            (case spawnEntity w1 dimension ''minecraft:armor_stand''
                    (px + 1/2, py + of_int BARRIER_OFFSET + 1, pz + 1/2) of
               None \<Rightarrow> Inl (LocationError, w1)
             | Some (armorStand, w2) \<Rightarrow>
                (case String_js (ticks settings) of
                   None \<Rightarrow> Inl (NotTracked, w2)
                 | Some label \<Rightarrow>
                    (case gen_tag settings basePos of
                       None \<Rightarrow> Inl (NotTracked, upd_entity w2 armorStand (setNameTag label))
                     | Some tag \<Rightarrow>
                         Inr (upd_entity (upd_entity w2 armorStand (setNameTag label))
                                armorStand (addTag tag)))))))"

section \<open>Tick Processor: removeInvalidGenerator, processEntity and the interval callback\<close>

definition removeInvalidGenerator :: "world \<Rightarrow> dimension \<Rightarrow> vec3 \<Rightarrow> nat \<Rightarrow> result" where
  "removeInvalidGenerator w dimension pos armorStand =
     (case pos of (px, py, pz) \<Rightarrow>
        (case setBlockType w dimension (px, py + of_int BARRIER_OFFSET, pz) ''minecraft:air'' of
           None \<Rightarrow> Inl (LocationError, w)
         | Some w1 \<Rightarrow> Inr (sendMessage (kill w1 armorStand) InvalidGeneratorRemoved)))"

text \<open>
  \<open>processEntity\<close> follows the source statement by statement. \<open>values[0]\<close> always
  exists, because \<open>split\<close> returns at least one field; \<open>values[1]\<close> and \<open>values[2]\<close>
  may be \<open>undefined\<close>. The \<open>try\<close> block covers the construction of the stack and
  \<open>spawnItem\<close>; a throw of either runs the \<open>catch\<close> block.
\<close>

definition processEntity :: "item_system \<Rightarrow> world \<Rightarrow> nat \<Rightarrow> dimension \<Rightarrow> string \<Rightarrow> result" where
  "processEntity new_ItemStack w entity dimension tag =
     (let values = tag_values tag in
      case find_entity w entity of
        None \<Rightarrow> Inl (InvalidEntityError, w)
      | Some e0 \<Rightarrow>
         (let w1 = upd_entity w entity (addEffect ''invisibility'' 20) in
          case location e0 of (ex, ey, ez) \<Rightarrow>
            (case getBlock w1 dimension (ex, ey - of_int (BARRIER_OFFSET + 1), ez) of
               None \<Rightarrow> Inl (TypeError, w1)
             | Some t \<Rightarrow>
                if t = ''minecraft:air'' then
                  (case setBlockType w1 dimension
                          (ex, ey - of_int (BARRIER_OFFSET + 1) + of_int BARRIER_OFFSET, ez) ''minecraft:air'' of
                     None \<Rightarrow> Inl (LocationError, w1)
                   | Some w2 \<Rightarrow> Inr (sendMessage (kill w2 entity) GeneratorBlockMissing))
                else
                  (let initialized = hasTag e0 ''count_initialized'';
                       w3 = (if \<not> initialized
                             then upd_entity (upd_entity w1 entity (setNameTag (values ! 0)))
                                    entity (addTag ''count_initialized'')
                             else w1);
                       label = (if \<not> initialized then values ! 0 else nameTag e0);
                       count = parseInt label
                   in if \<not> isNaN count then
                        (let count1 = js_dec count in
                         case js_le_zero count1 of
                           None \<Rightarrow> Inl (NotTracked, w3)
                         | Some le \<Rightarrow>
                            if le then
                              (let count2 = parseInt (values ! 0);
                                   pos = (ex, ey - of_int ITEM_SPAWN_OFFSET, ez)
                               in case (case new_ItemStack (nth_opt values 1) (parseInt_opt (nth_opt values 2)) of
                                          None \<Rightarrow> None
                                        | Some itemStack \<Rightarrow> spawnItem w3 dimension itemStack pos) of
                                    None \<Rightarrow>
                                      (case removeInvalidGenerator w3 dimension (ex, ey, ez) entity of
                                         Inl err \<Rightarrow> Inl err
                                       | Inr w4 \<Rightarrow> Inr (sendMessage w4 InvalidItemGeneration))
                                  | Some w4 \<Rightarrow>
                                      (case String_js count2 of
                                         None \<Rightarrow> Inl (NotTracked, w4)
                                       | Some l \<Rightarrow> Inr (upd_entity w4 entity (setNameTag l))))
                            else
                              (case String_js count1 of
                                 None \<Rightarrow> Inl (NotTracked, w3)
                               | Some l \<Rightarrow> Inr (upd_entity w3 entity (setNameTag l))))
                      else Inr (upd_entity w3 entity (setNameTag (values ! 0)))))))"

text \<open>
  The interval callback first collects, dimension by dimension, every entity with a tag
  that starts with \<open>gen:\<close> together with the first such tag, then processes the
  collected triples in order. An exception thrown by \<open>processEntity\<close> ends the callback.
\<close>

definition first_gen_tag :: "entity \<Rightarrow> string option" where
  "first_gen_tag e = find (\<lambda>t. startsWith t ''gen:'') (tags e)"

definition scan_dimension :: "world \<Rightarrow> dimension \<Rightarrow> (nat \<times> dimension \<times> string) list" where
  "scan_dimension w d =
     List.map_filter (\<lambda>e. case first_gen_tag e of None \<Rightarrow> None | Some t \<Rightarrow> Some (eid e, d, t))
       (getEntities w d)"

definition entitiesWithGenTag :: "world \<Rightarrow> (nat \<times> dimension \<times> string) list" where
  "entitiesWithGenTag w = concat (map (scan_dimension w) DIMENSIONS)"

fun forEach :: "item_system \<Rightarrow> (nat \<times> dimension \<times> string) list \<Rightarrow> world \<Rightarrow> result" where
  "forEach new_ItemStack [] w = Inr w"
| "forEach new_ItemStack ((entity, dimension, tag) # rest) w =
     (case processEntity new_ItemStack w entity dimension tag of
        Inl err \<Rightarrow> Inl err
      | Inr w' \<Rightarrow> forEach new_ItemStack rest w')"

definition tick :: "item_system \<Rightarrow> world \<Rightarrow> result" where
  "tick new_ItemStack w = forEach new_ItemStack (entitiesWithGenTag w) w"

text \<open>
  \<open>system.runInterval(..., 1)\<close> runs the callback every tick; a callback that threw does
  not stop the later ones. \<open>run\<close> gives the errors thrown and the world after \<open>n\<close> ticks;
  the world is that of the program as long as \<open>NotTracked\<close> is not among the errors.
\<close>

fun run :: "item_system \<Rightarrow> nat \<Rightarrow> world \<Rightarrow> js_error list \<times> world" where
  "run new_ItemStack 0 w = ([], w)"
| "run new_ItemStack (Suc n) w =
     (case tick new_ItemStack w of
        Inl (err, w') \<Rightarrow> (case run new_ItemStack n w' of (errs, w'') \<Rightarrow> (err # errs, w''))
      | Inr w' \<Rightarrow> run new_ItemStack n w')"

section \<open>Configuration form: showSettingModal\<close>

text \<open>
  The form is answered by the player: \<open>show\<close> is rejected, or it resolves to a response
  whose \<open>formValues\<close> are \<open>undefined\<close> (the form was closed) or the list of field values.
  The result is what the player is told and the world afterwards, or \<open>None\<close> where
  Placement Setup is not tracked.
\<close>

datatype form_response = ShowRejected | FormData "string list option"

definition showSettingModal :: "world \<Rightarrow> dimension \<Rightarrow> bpos \<Rightarrow> form_response
    \<Rightarrow> (message list \<times> world) option" where
  "showSettingModal w dimension block response =
     (case response of
        ShowRejected \<Rightarrow> Some ([FormFailed FormError], w)
      | FormData None \<Rightarrow> Some ([FormFailed TypeError], w)
      | FormData (Some formValues) \<Rightarrow>
          (let settings = fromFormValues formValues in
           if \<not> validate settings then Some ([InvalidInput], w)
           else (case setUpArmorStand w dimension block settings of
                   Inl (err, w') \<Rightarrow> if err = NotTracked then None else Some ([FormFailed err], w')
                 | Inr w' \<Rightarrow> Some ([], w'))))"

section \<open>Event handlers: playerBreakBlock and itemUse\<close>

text \<open>The loop over the entities of the dimension, left at the first marker found.\<close>

definition is_marker_at :: "vec3 \<Rightarrow> entity \<Rightarrow> bool" where
  "is_marker_at armorStandPos e =
     (typeId e = ''minecraft:armor_stand'' \<and>
      list_ex (\<lambda>t. startsWith t ''gen:'') (tags e) \<and>
      block_of (location e) = block_of armorStandPos)"

fun find_generator :: "vec3 \<Rightarrow> entity list \<Rightarrow> bool" where
  "find_generator armorStandPos [] = False"
| "find_generator armorStandPos (e # es) =
     (if is_marker_at armorStandPos e then True else find_generator armorStandPos es)"

text \<open>The handler gives the event's \<open>cancel\<close> flag and the messages sent to the player.\<close>

definition playerBreakBlock :: "world \<Rightarrow> GameMode \<Rightarrow> dimension \<Rightarrow> bpos \<Rightarrow> js_error + (bool \<times> message list)" where
  "playerBreakBlock w gameMode dimension blockLocation =
     (case vec_of blockLocation of (px, py, pz) \<Rightarrow>
        (case getBlock w dimension (px, py + of_int BARRIER_OFFSET, pz) of
           None \<Rightarrow> Inl TypeError
         | Some t \<Rightarrow>
            if t = ''minecraft:barrier'' then
              (let isGenerator = find_generator (px, py + of_int BARRIER_OFFSET + 1, pz)
                                   (getEntities w dimension)
               in if isGenerator \<and> gameMode \<noteq> creative then Inr (True, [CreativeOnly])
                  else Inr (False, []))
            else Inr (False, [])))"

text \<open>
  \<open>itemUse\<close>: the block the player looks at is \<open>getBlockFromViewDirection().block\<close>,
  where the raycast gives \<open>undefined\<close> (\<open>None\<close>) when no block is hit. The form's answer
  is a parameter; the result is what the player is told and the world afterwards. The
  assignment to \<open>cancel\<close> of this after-event changes nothing in the world.
\<close>

definition itemUse :: "world \<Rightarrow> dimension \<Rightarrow> string \<Rightarrow> bool \<Rightarrow> bpos option \<Rightarrow> form_response
    \<Rightarrow> js_error + (message list \<times> world) option" where
  "itemUse w dimension item isSneaking hit response =
     (case hit of
        None \<Rightarrow> Inl TypeError
      | Some block \<Rightarrow>
          if item = ''minecraft:trial_key'' \<and> \<not> isSneaking
          then Inr (showSettingModal w dimension block response)
          else Inr (Some ([], w)))"

section \<open>Auxiliary notions for stating the properties\<close>

text \<open>
  The marker entity of a generator placed on \<open>basePos\<close>, as \<open>setUpArmorStand\<close> creates it
  (\<open>initialized = False\<close>) and as the tick processor keeps it afterwards.
\<close>

definition marker_entity :: "nat \<Rightarrow> dimension \<Rightarrow> bpos \<Rightarrow> string \<Rightarrow> string \<Rightarrow> bool \<Rightarrow> entity" where
  "marker_entity i d basePos tag label initialized =
     (case basePos of (bx, by, bz) \<Rightarrow>
        \<lparr>eid = i, edim = d, typeId = ''minecraft:armor_stand'',
         location = (of_int bx + 1/2, of_int by + 100, of_int bz + 1/2),
         nameTag = label,
         tags = (if initialized then [tag, ''count_initialized''] else [tag]),
         effects = (if initialized then [(''invisibility'', 20)] else [])\<rparr>)"

text \<open>Entity handles handed out so far are below \<open>next_id\<close>; a world without generator markers.\<close>

definition ids_below :: "world \<Rightarrow> bool" where
  "ids_below w = list_all (\<lambda>e. eid e < next_id w) (entities w)"

definition no_generators :: "world \<Rightarrow> bool" where
  "no_generators w = list_all (\<lambda>e. first_gen_tag e = None) (entities w)"

definition the_world :: "result \<Rightarrow> world" where
  "the_world r = (case r of Inl (err, w) \<Rightarrow> w | Inr w \<Rightarrow> w)"

definition settings :: "int \<Rightarrow> string \<Rightarrow> int \<Rightarrow> GeneratorSettings" where
  "settings T iid n = \<lparr>ticks = Num T, itemId = Some iid, itemCount = Num n\<rparr>"

section \<open>Concrete inputs\<close>

text \<open>
  An item system that knows the single item \<open>minecraft:diamond\<close>, accepts the amounts 1 to
  255 and clamps them to the stack size 64; a world of air with one stone block at
  \<open>(0, 64, 0)\<close>, every position accessible.
\<close>

definition demo_items :: item_system where
  "demo_items iid amount =
     (case iid of
        None \<Rightarrow> None
      | Some i \<Rightarrow>
          (case amount of
             NaN \<Rightarrow> None
           | Huge \<Rightarrow> None
           | Num k \<Rightarrow> if i = ''minecraft:diamond'' \<and> 1 \<le> k \<and> k \<le> 255 then Some (i, min k 64) else None))"

definition world0 :: world where
  "world0 = \<lparr>blocks = (\<lambda>(d, p). Some (if p = (0, 64, 0) then ''minecraft:stone'' else ''minecraft:air'')),
             entities = [], items = [], broadcasts = [], next_id = 0\<rparr>"

text \<open>A generator for an item that does not exist, placed on the stone block.\<close>

definition c1_world :: world where
  "c1_world = the_world (setUpArmorStand world0 Overworld (0, 64, 0) (settings 1 ''minecraft:no_such_item'' 1))"

text \<open>The scenario of the diamond generator with interval 1 on the stone block.\<close>

definition c5_world :: world where
  "c5_world = the_world (setUpArmorStand world0 Overworld (0, 64, 0) (settings 1 ''minecraft:diamond'' 1))"

text \<open>
  The diamond generator after its block was removed, and after its barrier was removed,
  by some other means.
\<close>

definition c2_air_world :: world where
  "c2_air_world = c5_world\<lparr>blocks := (blocks c5_world)((Overworld, (0, 64, 0)) \<mapsto> ''minecraft:air'')\<rparr>"

definition c2_world :: world where
  "c2_world = c5_world\<lparr>blocks := (blocks c5_world)((Overworld, (0, 163, 0)) \<mapsto> ''minecraft:air'')\<rparr>"

text \<open>
  A generator for an item that does not exist, with a stone block 199 above its target.
\<close>

definition c3_world :: world where
  "c3_world = the_world (setUpArmorStand
       (world0\<lparr>blocks := (blocks world0)((Overworld, (0, 263, 0)) \<mapsto> ''minecraft:stone'')\<rparr>)
       Overworld (0, 64, 0) (settings 1 ''minecraft:no_such_item'' 1))"

text \<open>The stone block configured with interval 5, then configured again with interval 10.\<close>

definition c4_world :: world where
  "c4_world = the_world (setUpArmorStand
       (the_world (setUpArmorStand world0 Overworld (0, 64, 0) (settings 5 ''minecraft:diamond'' 1)))
       Overworld (0, 64, 0) (settings 10 ''minecraft:diamond'' 2))"






section \<open>Numbers, strings and the tag codec (claim C6)\<close>

text \<open>\<open>parseInt\<close> reads back what \<open>String\<close> prints.\<close>

lemma digits_ne: "digits n \<noteq> []"
  by (subst digits.simps) simp

lemma digit_val_char_of: "0 \<le> d \<Longrightarrow> d < 10 \<Longrightarrow> digit_val (char_of (48 + d)) = Some (d::int)"
  by (simp add: digit_val_def Let_def)

lemma digits_is_digit: "0 \<le> n \<Longrightarrow> c \<in> set (digits n) \<Longrightarrow> is_digit 10 c"
proof (induction n rule: digits.induct)
  case (1 n)
  have "0 \<le> n mod 10" "n mod 10 < 10" by simp_all
  then have last: "is_digit 10 (char_of (48 + n mod 10))"
    by (simp add: is_digit_def digit_val_char_of)
  show ?case
  proof (cases "n < 10")
    case True
    with "1.prems" have "c = char_of (48 + n)"
      by (subst (asm) digits.simps) simp
    with True "1.prems"(1) show ?thesis by (simp add: is_digit_def digit_val_char_of)
  next
    case False
    from "1.prems" have "c \<in> set (digits (n div 10)) \<or> c = char_of (48 + n mod 10)"
      using False by (subst (asm) digits.simps) auto
    moreover have "0 \<le> n div 10" using "1.prems"(1) by simp
    ultimately show ?thesis using "1.IH" False last by blast
  qed
qed

lemma not_digit_chars:
  "\<not> is_digit 10 (CHR '','')" "\<not> is_digit 10 (CHR ''-'')" "\<not> is_digit 10 (CHR ''+'')"
  "\<not> is_digit 10 (CHR ''x'')" "\<not> is_digit 10 (CHR ''X'')"
  by (simp_all add: is_digit_def digit_val_def)

lemma is_digit_ascii: "is_digit 10 c \<Longrightarrow> \<not> is_ws c \<and> (of_char c :: int) < 128"
  by (auto simp: is_digit_def digit_val_def is_ws_def Let_def split: if_splits)

lemma skip_ws_ascii: "\<not> is_ws c \<Longrightarrow> (of_char c :: int) < 128 \<Longrightarrow> skip_ws (c # cs) = c # cs"
proof -
  assume c: "\<not> is_ws c" "(of_char c :: int) < 128"
  then have 2: "\<not> is_ws2 c b" for b by (auto simp: is_ws2_def)
  from c have 3: "\<not> is_ws3 c b1 b2" for b1 b2 by (auto simp: is_ws3_def)
  show ?thesis
  proof (cases cs)
    case Nil
    with c show ?thesis by simp
  next
    case (Cons b bs)
    with c 2 3 show ?thesis by (cases bs) simp_all
  qed
qed

lemma digits_value_snoc:
  "digits_value R (Z @ [c]) = digits_value R Z * R + (case digit_val c of None \<Rightarrow> 0 | Some v \<Rightarrow> v)"
  by (simp add: digits_value_def)

lemma digits_value_digits: "0 \<le> n \<Longrightarrow> digits_value 10 (digits n) = n"
proof (induction n rule: digits.induct)
  case (1 n)
  show ?case
  proof (cases "n < 10")
    case True
    with "1.prems" show ?thesis
      by (subst digits.simps) (simp add: digits_value_def digit_val_char_of)
  next
    case False
    have "0 \<le> n mod 10" "n mod 10 < 10" by simp_all
    then have dv: "digit_val (char_of (48 + n mod 10)) = Some (n mod 10)"
      by (rule digit_val_char_of)
    from False have "digits n = digits (n div 10) @ [char_of (48 + n mod 10)]"
      by (subst digits.simps) simp
    moreover have "0 \<le> n div 10" using "1.prems" by simp
    ultimately show ?thesis
      using "1.IH" False by (simp add: digits_value_snoc dv)
  qed
qed

lemma digits_no_hex:
  assumes "0 \<le> n"
  shows "take 2 (digits n) \<noteq> ''0x''" "take 2 (digits n) \<noteq> ''0X''"
proof -
  have *: "is_digit 10 q" if "take 2 (digits n) = [CHR ''0'', q]" for q
  proof -
    from that have "q \<in> set (take 2 (digits n))" by simp
    then have "q \<in> set (digits n)" by (rule in_set_takeD)
    with assms show ?thesis by (rule digits_is_digit)
  qed
  show "take 2 (digits n) \<noteq> ''0x''" using * [of "CHR ''x''"] by (auto simp: not_digit_chars)
  show "take 2 (digits n) \<noteq> ''0X''" using * [of "CHR ''X''"] by (auto simp: not_digit_chars)
qed

lemma takeWhile_digits: "0 \<le> n \<Longrightarrow> takeWhile (is_digit 10) (digits n) = digits n"
  by (simp add: takeWhile_eq_all_conv digits_is_digit)

lemma parseInt_digits:
  assumes "0 \<le> n"
  shows "parseInt (digits n) = num n"
proof -
  let ?s = "digits n"
  have ne: "?s \<noteq> []" by (rule digits_ne)
  then obtain c cs where s: "?s = c # cs" by (cases ?s) auto
  have "is_digit 10 c" using digits_is_digit [OF assms, of c] s by simp
  then have c: "\<not> is_ws c" "(of_char c :: int) < 128" "c \<noteq> CHR ''-''" "c \<noteq> CHR ''+''"
    using is_digit_ascii [of c] by (auto simp: not_digit_chars)
  have dw: "skip_ws ?s = ?s"
    unfolding s using c(1,2) by (rule skip_ws_ascii)
  have hd: "hd ?s \<noteq> CHR ''-''" "hd ?s \<noteq> CHR ''+''" using s c by simp_all
  show ?thesis
    unfolding parseInt_def dw Let_def
    using hd ne
    by (simp add: digits_value_digits [OF assms] digits_no_hex [OF assms] takeWhile_digits [OF assms])
qed

lemma parseInt_neg_digits:
  assumes "0 \<le> n"
  shows "parseInt (CHR ''-'' # digits n) = num (- n)"
proof -
  have dw: "skip_ws (CHR ''-'' # digits n) = CHR ''-'' # digits n"
    by (rule skip_ws_ascii) (simp_all add: is_ws_def)
  show ?thesis
    unfolding parseInt_def dw Let_def
    using digits_ne [of n]
    by (simp add: digits_value_digits [OF assms] digits_no_hex [OF assms] takeWhile_digits [OF assms])
qed

lemma parseInt_decimal: "parseInt (decimal i) = num i"
  by (simp add: decimal_def parseInt_digits parseInt_neg_digits)

text \<open>Leading white space outside ASCII (U+3000, U+00A0) is skipped; integers from \<open>2^53\<close> on are not tracked.\<close>

lemma parseInt_examples:
  "parseInt [CHR 0xE3, CHR 0x80, CHR 0x80, CHR ''5''] = Num 5"
  "parseInt [CHR 0xC2, CHR 0xA0, CHR ''5''] = Num 5"
  "parseInt ''  -0x1F'' = Num (- 31)"
  "parseInt ''12abc'' = Num 12"
  "parseInt ''abc'' = NaN"
  "parseInt ''9007199254740991'' = Num 9007199254740991"
  "parseInt ''9007199254740992'' = Huge"
  "parseInt ''1000000000000000000000'' = Huge"
  by code_simp+

lemma parseInt_NaN_text: "parseInt ''NaN'' = NaN"
  by code_simp

lemma parseInt_String_js: "String_js v = Some l \<Longrightarrow> parseInt l = v"
  by (cases v) (auto simp: parseInt_decimal parseInt_NaN_text num_def split: if_splits)

lemma parseInt_safe: "parseInt s = Num n \<Longrightarrow> safe n"
  by (auto simp: parseInt_def Let_def num_def split: if_splits)

lemma comma_notin_decimal: "CHR '','' \<notin> set (decimal i)"
proof -
  have "CHR '','' \<notin> set (digits m)" if "0 \<le> m" for m
    using digits_is_digit [OF that, of "CHR '',''"] by (auto simp: not_digit_chars)
  then show ?thesis by (simp add: decimal_def)
qed

lemma comma_notin_String_js: "String_js v = Some l \<Longrightarrow> CHR '','' \<notin> set l"
  by (cases v) (auto simp: comma_notin_decimal split: if_splits)

lemma split_acc_no_comma: "CHR '','' \<notin> set s \<Longrightarrow> split_acc acc s = [rev acc @ s]"
  by (induction s arbitrary: acc) auto

lemma split_acc_field:
  "CHR '','' \<notin> set s \<Longrightarrow> split_acc acc (s @ CHR '','' # rest) = (rev acc @ s) # split_acc [] rest"
  by (induction s arbitrary: acc) auto

lemma split_comma_field:
  "CHR '','' \<notin> set s \<Longrightarrow> split_comma (s @ CHR '','' # rest) = s # split_comma rest"
  by (simp add: split_comma_def split_acc_field)

lemma split_comma_last: "CHR '','' \<notin> set s \<Longrightarrow> split_comma s = [s]"
  by (simp add: split_comma_def split_acc_no_comma)

lemma split_acc_ne: "split_acc acc s \<noteq> []"
  by (induction s arbitrary: acc) auto

lemma split_comma_ne: "split_comma s \<noteq> []"
  by (simp add: split_comma_def split_acc_ne)

lemma tag_values_fields:
  assumes "CHR '','' \<notin> set t" "CHR '','' \<notin> set i" "CHR '','' \<notin> set c"
    "CHR '','' \<notin> set x" "CHR '','' \<notin> set y" "CHR '','' \<notin> set z"
  shows "tag_values (''gen:'' @ t @ '','' @ i @ '','' @ c @ '','' @ x @ '','' @ y @ '','' @ z)
     = [t, i, c, x, y, z]"
proof -
  have "tag_values (''gen:'' @ t @ '','' @ i @ '','' @ c @ '','' @ x @ '','' @ y @ '','' @ z) =
    split_comma (t @ CHR '','' # (i @ CHR '','' # (c @ CHR '','' # (x @ CHR '','' # (y @ CHR '','' # z)))))"
    unfolding tag_values_def by (simp add: startsWith_def)
  also have "\<dots> = [t, i, c, x, y, z]"
    using assms by (simp only: split_comma_field split_comma_last not_False_eq_True)
  finally show ?thesis .
qed

lemma gen_tag_tracked:
  assumes "CHR '','' \<notin> set i" and "String_js t = Some ts" and "String_js c = Some cs"
    and "safe bx" and "safe by" and "safe bz"
  shows "\<exists>G. gen_tag \<lparr>ticks = t, itemId = Some i, itemCount = c\<rparr> (bx, by, bz) = Some G
      \<and> tag_values G = [ts, i, cs, decimal bx, decimal by, decimal bz]
      \<and> startsWith G ''gen:'' \<and> G \<noteq> ''count_initialized''"
proof -
  let ?G = "''gen:'' @ ts @ '','' @ i @ '','' @ cs @ '','' @ decimal bx @ '','' @ decimal by @ '','' @ decimal bz"
  have g: "gen_tag \<lparr>ticks = t, itemId = Some i, itemCount = c\<rparr> (bx, by, bz) = Some ?G"
    using assms(2-6) by (simp add: gen_tag_def num_def to_str_def)
  have v: "tag_values ?G = [ts, i, cs, decimal bx, decimal by, decimal bz]"
    by (rule tag_values_fields)
       (simp_all add: assms(1) comma_notin_String_js [OF assms(2)] comma_notin_String_js [OF assms(3)]
          comma_notin_decimal)
  have "startsWith ?G ''gen:''" "?G \<noteq> ''count_initialized''"
    by (simp_all add: startsWith_def)
  with g v show ?thesis by blast
qed

text \<open>
  Claim C6, as amended. For every configuration that \<open>validate\<close> accepts, whose item
  identifier contains no comma and whose interval and count are tracked (integers of
  magnitude at most \<open>2^53 - 1\<close>), and for every anchor position with coordinates in that
  range, \<open>setUpArmorStand\<close> writes a tag, and decoding it (prefix \<open>gen:\<close> removed, fields
  split at commas, the two numbers parsed) gives back the same interval, item identifier
  and item count.
\<close>

theorem C6_roundtrip:
  assumes "validate s" and "itemId s = Some i" and "CHR '','' \<notin> set i"
    and "tracked (ticks s)" and "tracked (itemCount s)"
    and "safe bx" and "safe by" and "safe bz"
  shows "map_option decode (gen_tag s (bx, by, bz)) = Some (ticks s, itemId s, itemCount s)"
proof -
  from assms(4) obtain ts where ts: "String_js (ticks s) = Some ts"
    by (cases "ticks s") auto
  from assms(5) obtain cs where cs: "String_js (itemCount s) = Some cs"
    by (cases "itemCount s") auto
  have s: "s = \<lparr>ticks = ticks s, itemId = Some i, itemCount = itemCount s\<rparr>"
    using assms(2) by simp
  from gen_tag_tracked [OF assms(3) ts cs assms(6-8)] obtain G
    where G: "gen_tag s (bx, by, bz) = Some G"
      "tag_values G = [ts, i, cs, decimal bx, decimal by, decimal bz]"
    using s by metis
  show ?thesis
    using assms(2) parseInt_String_js [OF ts] parseInt_String_js [OF cs]
    by (simp add: G decode_def nth_opt_def parseInt_opt_def)
qed

theorem C6_roundtrip_witness:
  "validate (settings 5 ''minecraft:diamond'' 1) \<and>
   tracked (ticks (settings 5 ''minecraft:diamond'' 1)) \<and> safe 64 \<and>
   gen_tag (settings 5 ''minecraft:diamond'' 1) (0, 64, 0) = Some ''gen:5,minecraft:diamond,1,0,64,0'' \<and>
   map_option decode (gen_tag (settings 5 ''minecraft:diamond'' 1) (0, 64, 0))
     = Some (Num 5, Some ''minecraft:diamond'', Num 1)"
proof -
  have g: "gen_tag (settings 5 ''minecraft:diamond'' 1) (0, 64, 0) = Some ''gen:5,minecraft:diamond,1,0,64,0''"
    by code_simp
  have h: "validate (settings 5 ''minecraft:diamond'' 1)" "CHR '','' \<notin> set ''minecraft:diamond''"
    "tracked (ticks (settings 5 ''minecraft:diamond'' 1))" "tracked (itemCount (settings 5 ''minecraft:diamond'' 1))"
    "safe 0" "safe 64"
    by (simp_all add: settings_def validate_def startsWith_def safe_def MAX_SAFE_INTEGER_def)
  have i: "itemId (settings 5 ''minecraft:diamond'' 1) = Some ''minecraft:diamond''"
    by (simp add: settings_def)
  from C6_roundtrip [OF h(1) i h(2,3,4) h(5,6,5)] g h show ?thesis
    by (simp add: settings_def)
qed

text \<open>
  As stated, C6 fails: \<open>validate\<close> accepts the identifier \<open>minecraft:a,b\<close>, and its tag
  decodes to the identifier \<open>minecraft:a\<close> and the count \<open>NaN\<close>.
\<close>

theorem C6_comma_counterexample:
  "validate (settings 5 ''minecraft:a,b'' 1) \<and>
   gen_tag (settings 5 ''minecraft:a,b'' 1) (0, 64, 0) = Some ''gen:5,minecraft:a,b,1,0,64,0'' \<and>
   map_option decode (gen_tag (settings 5 ''minecraft:a,b'' 1) (0, 64, 0))
     = Some (Num 5, Some ''minecraft:a'', NaN)"
  by code_simp

section \<open>Entity lists, the scan and Placement Setup\<close>


lemma map_upd_other: "list_all (\<lambda>e. eid e \<noteq> i) es \<Longrightarrow> map (\<lambda>e. if eid e = i then f e else e) es = es"
  by (induction es) auto

lemma filter_kill_other: "list_all (\<lambda>e. eid e \<noteq> i) es \<Longrightarrow> filter (\<lambda>e. eid e \<noteq> i) es = es"
  by (induction es) auto

lemma find_other: "list_all (\<lambda>e. eid e \<noteq> i) es \<Longrightarrow> find (\<lambda>e. eid e = i) (es @ [E]) = (if eid E = i then Some E else None)"
  by (induction es) auto

lemma scan_none: "list_all (\<lambda>e. first_gen_tag e = None) es \<Longrightarrow>
   List.map_filter (\<lambda>e. case first_gen_tag e of None \<Rightarrow> None | Some t \<Rightarrow> Some (eid e, d, t)) (filter (\<lambda>e. edim e = d) es) = []"
  by (induction es) (auto simp: List.map_filter_def)

lemma scan_single:
  assumes "entities w = es @ [E]" "list_all (\<lambda>e. first_gen_tag e = None) es" "first_gen_tag E = Some G"
  shows "entitiesWithGenTag w = [(eid E, edim E, G)]"
proof -
  have "scan_dimension w d = (if edim E = d then [(eid E, d, G)] else [])" for d
    using scan_none [OF assms(2), of d] assms(1,3)
    by (simp add: scan_dimension_def getEntities_def List.map_filter_def)
  then show ?thesis
    by (cases "edim E") (simp_all add: entitiesWithGenTag_def DIMENSIONS_def)
qed

lemma ids_below_other: "ids_below w \<Longrightarrow> list_all (\<lambda>e. eid e \<noteq> next_id w) (entities w)"
  unfolding ids_below_def by (induction "entities w") (auto simp: list_all_iff)

lemma setUp_closed:
  assumes "ids_below w"
    and "blocks w (d, (bx, by + 99, bz)) \<noteq> None"
    and "blocks w (d, (bx, by + 100, bz)) \<noteq> None"
    and "String_js (ticks s) = Some l" and "gen_tag s (bx, by, bz) = Some G"
  shows "setUpArmorStand w d (bx, by, bz) s =
     Inr (w\<lparr>blocks := (blocks w)((d, (bx, by + 99, bz)) \<mapsto> ''minecraft:barrier''),
            entities := entities w @ [marker_entity (next_id w) d (bx, by, bz) G l False],
            next_id := Suc (next_id w)\<rparr>)"
proof -
  have fl: "\<lfloor>(of_int bx :: rat) + 1/2\<rfloor> = bx" "\<lfloor>(of_int bz :: rat) + 1/2\<rfloor> = bz"
    by linarith+
  note oth = ids_below_other [OF assms(1)]
  have m: "map (\<lambda>e. if eid e = next_id w then f e else e) (entities w) = entities w" for f
    by (rule map_upd_other) (rule oth)
  show ?thesis
    using assms(2-5)
    by (simp add: setUpArmorStand_def vec_of_def setBlockType_def block_of_def BARRIER_OFFSET_def
        spawnEntity_def fl upd_entity_def m setNameTag_def addTag_def marker_entity_def add.commute
        del: map_map)
qed

section \<open>One step of the tick processor on a marker placed by Placement Setup\<close>

lemma upd_entity_marker:
  assumes "list_all (\<lambda>e. eid e \<noteq> i) es" "eid E = i"
  shows "upd_entity (w\<lparr>entities := es @ [E]\<rparr>) i f = w\<lparr>entities := es @ [f E]\<rparr>"
  using assms by (simp add: upd_entity_def map_upd_other)

lemma find_entity_marker:
  assumes "list_all (\<lambda>e. eid e \<noteq> i) es" "eid E = i"
  shows "find_entity (w\<lparr>entities := es @ [E]\<rparr>) i = Some E"
  using assms by (simp add: find_entity_def find_other)

lemma floor_half: "\<lfloor>(of_int a :: rat) + 1/2\<rfloor> = a"
  by linarith

lemma marker_simps:
  "eid (marker_entity i d p G l b) = i"
  "edim (marker_entity i d p G l b) = d"
  "nameTag (marker_entity i d p G l b) = l"
  "tags (marker_entity i d p G l b) = (if b then [G, ''count_initialized''] else [G])"
  "location (marker_entity i d (bx, by, bz) G l b) = (of_int bx + 1/2, of_int by + 100, of_int bz + 1/2)"
  by (cases p; simp add: marker_entity_def)+

lemma processEntity_countdown:
  assumes oth: "list_all (\<lambda>e. eid e \<noteq> i) es"
    and G: "G \<noteq> ''count_initialized''"
    and blk: "blocks w (d, (bx, by, bz)) = Some t" "t \<noteq> ''minecraft:air''"
    and cnt: "parseInt (if b then l else tag_values G ! 0) = Num c" "1 < c"
  shows "processEntity mk (w\<lparr>entities := es @ [marker_entity i d (bx, by, bz) G l b]\<rparr>) i d G =
     Inr (w\<lparr>entities := es @ [marker_entity i d (bx, by, bz) G (decimal (c - 1)) True]\<rparr>)"
proof -
  let ?E = "marker_entity i d (bx, by, bz) G l b"
  have eid: "eid ?E = i" by (simp add: marker_simps)
  have sf: "safe c" "safe (c - 1)" "\<not> c - 1 \<le> 0"
    using parseInt_safe [OF cnt(1)] cnt(2) by (simp_all add: safe_def MAX_SAFE_INTEGER_def)
  have blk': "getBlock (w\<lparr>entities := X\<rparr>) d (of_int bx + 1/2, of_int by + 100 - of_int (BARRIER_OFFSET + 1), of_int bz + 1/2) = Some t" for X
    using blk(1) by (simp add: getBlock_def block_of_def floor_half BARRIER_OFFSET_def)
  show ?thesis
    unfolding processEntity_def Let_def find_entity_marker [OF oth eid] option.case
      upd_entity_marker [OF oth eid] marker_simps prod.case blk'
    using blk(2) cnt G sf
    by (cases b)
       (simp_all add: upd_entity_marker [OF oth] marker_simps hasTag_def num_def
         marker_entity_def addTag_def setNameTag_def addEffect_def)
qed


lemma processEntity_emit:
  assumes oth: "list_all (\<lambda>e. eid e \<noteq> i) es"
    and G: "G \<noteq> ''count_initialized''"
    and blk: "blocks w (d, (bx, by, bz)) = Some t" "t \<noteq> ''minecraft:air''"
    and cnt: "parseInt (if b then l else tag_values G ! 0) = Num c" "c \<le> 1" "safe (c - 1)"
    and mk: "mk (nth_opt (tag_values G) 1) (parseInt_opt (nth_opt (tag_values G) 2)) = Some st"
    and acc: "blocks w (d, (bx, by + 2, bz)) \<noteq> None"
    and l2: "String_js (parseInt (tag_values G ! 0)) = Some l2"
  shows "processEntity mk (w\<lparr>entities := es @ [marker_entity i d (bx, by, bz) G l b]\<rparr>) i d G =
     Inr (w\<lparr>entities := es @ [marker_entity i d (bx, by, bz) G l2 True],
            items := items w @ [(d, st, (of_int bx + 1/2, of_int by + 2, of_int bz + 1/2))]\<rparr>)"
proof -
  let ?E = "marker_entity i d (bx, by, bz) G l b"
  have eid: "eid ?E = i" by (simp add: marker_simps)
  have blk': "getBlock (w\<lparr>entities := X\<rparr>) d (of_int bx + 1/2, of_int by + 100 - of_int (BARRIER_OFFSET + 1), of_int bz + 1/2) = Some t" for X
    using blk(1) by (simp add: getBlock_def block_of_def floor_half BARRIER_OFFSET_def)
  have sp: "spawnItem (w\<lparr>entities := X\<rparr>) d st (of_int bx + 1/2, of_int by + 100 - of_int ITEM_SPAWN_OFFSET, of_int bz + 1/2)
      = Some (w\<lparr>entities := X, items := items w @ [(d, st, (of_int bx + 1/2, of_int by + 2, of_int bz + 1/2))]\<rparr>)" for X
    using acc by (simp add: spawnItem_def block_of_def floor_half ITEM_SPAWN_OFFSET_def add.commute)
  have up: "upd_entity (w\<lparr>entities := es @ [E], items := I\<rparr>) i f = w\<lparr>entities := es @ [f E], items := I\<rparr>"
    if "eid E = i" for E f I
    using that by (simp add: upd_entity_def map_upd_other [OF oth])
  show ?thesis
    unfolding processEntity_def Let_def find_entity_marker [OF oth eid] option.case
      upd_entity_marker [OF oth eid] marker_simps prod.case blk'
    using blk(2) cnt G mk l2 parseInt_safe [OF cnt(1)]
    by (cases b)
       (simp_all add: upd_entity_marker [OF oth] up sp marker_simps hasTag_def num_def
         marker_entity_def addTag_def setNameTag_def addEffect_def del: String_js.simps)
qed

lemma processEntity_emit_fails:
  assumes oth: "list_all (\<lambda>e. eid e \<noteq> i) es"
    and G: "G \<noteq> ''count_initialized''"
    and blk: "blocks w (d, (bx, by, bz)) = Some t" "t \<noteq> ''minecraft:air''"
    and cnt: "parseInt (if b then l else tag_values G ! 0) = Num c" "c \<le> 1" "safe (c - 1)"
    and mk: "mk (nth_opt (tag_values G) 1) (parseInt_opt (nth_opt (tag_values G) 2)) = None"
    and acc: "blocks w (d, (bx, by + 199, bz)) \<noteq> None"
  shows "processEntity mk (w\<lparr>entities := es @ [marker_entity i d (bx, by, bz) G l b]\<rparr>) i d G =
     Inr (w\<lparr>blocks := (blocks w)((d, (bx, by + 199, bz)) \<mapsto> ''minecraft:air''),
            entities := es,
            broadcasts := broadcasts w @ [InvalidGeneratorRemoved, InvalidItemGeneration]\<rparr>)"
proof -
  let ?E = "marker_entity i d (bx, by, bz) G l b"
  have eid: "eid ?E = i" by (simp add: marker_simps)
  have blk': "getBlock (w\<lparr>entities := X\<rparr>) d (of_int bx + 1/2, of_int by + 100 - of_int (BARRIER_OFFSET + 1), of_int bz + 1/2) = Some t" for X
    using blk(1) by (simp add: getBlock_def block_of_def floor_half BARRIER_OFFSET_def)
  have rm: "removeInvalidGenerator (w\<lparr>entities := es @ [E]\<rparr>) d (of_int bx + 1/2, of_int by + 100, of_int bz + 1/2) i
      = Inr (w\<lparr>blocks := (blocks w)((d, (bx, by + 199, bz)) \<mapsto> ''minecraft:air''),
               entities := es, broadcasts := broadcasts w @ [InvalidGeneratorRemoved]\<rparr>)"
    if "eid E = i" for E
    using acc that
    by (simp add: removeInvalidGenerator_def setBlockType_def block_of_def floor_half
        BARRIER_OFFSET_def sendMessage_def add.commute kill_def filter_kill_other [OF oth])
  show ?thesis
    unfolding processEntity_def Let_def find_entity_marker [OF oth eid] option.case
      upd_entity_marker [OF oth eid] marker_simps prod.case blk'
    using blk(2) cnt G mk parseInt_safe [OF cnt(1)]
    by (cases b)
       (simp_all add: upd_entity_marker [OF oth] rm marker_simps hasTag_def sendMessage_def num_def
         marker_entity_def addTag_def setNameTag_def addEffect_def del: String_js.simps)
qed

lemma tick_single:
  assumes "list_all (\<lambda>e. first_gen_tag e = None) es" "startsWith G ''gen:''"
  shows "tick mk (w\<lparr>entities := es @ [marker_entity i d p G l b]\<rparr>) =
         processEntity mk (w\<lparr>entities := es @ [marker_entity i d p G l b]\<rparr>) i d G"
proof -
  have "first_gen_tag (marker_entity i d p G l b) = Some G"
    using assms(2) by (cases p) (simp add: first_gen_tag_def marker_entity_def)
  then have "entitiesWithGenTag (w\<lparr>entities := es @ [marker_entity i d p G l b]\<rparr>) = [(i, d, G)]"
    using scan_single [of "w\<lparr>entities := es @ [marker_entity i d p G l b]\<rparr>" es "marker_entity i d p G l b" G] assms(1)
    by (simp add: marker_simps)
  then show ?thesis
    by (simp add: tick_def split: sum.splits)
qed

section \<open>Running the interval callback over a countdown\<close>

lemma safe_between: "0 \<le> c \<Longrightarrow> c \<le> T \<Longrightarrow> safe T \<Longrightarrow> safe c"
  by (simp add: safe_def MAX_SAFE_INTEGER_def)

lemma run_before:
  fixes T :: int
  assumes gf: "list_all (\<lambda>e. first_gen_tag e = None) es"
    and oth: "list_all (\<lambda>e. eid e \<noteq> i) es"
    and blk: "blocks w (d, (bx, by, bz)) = Some t" "t \<noteq> ''minecraft:air''"
    and Gs: "startsWith G ''gen:''" "G \<noteq> ''count_initialized''"
    and v0: "tag_values G ! 0 = decimal T" and T: "safe T"
  shows "int j < c \<Longrightarrow> c \<le> T \<Longrightarrow> b \<or> c = T \<Longrightarrow>
     run mk j (w\<lparr>entities := es @ [marker_entity i d (bx, by, bz) G (decimal c) b]\<rparr>) =
       ([], w\<lparr>entities := es @ [marker_entity i d (bx, by, bz) G (decimal (c - int j)) (b \<or> 0 < j)]\<rparr>)"
proof (induction j arbitrary: c b)
  case 0
  then show ?case by simp
next
  case (Suc j)
  have c: "1 < c" using Suc.prems(1) by simp
  then have sc: "safe c" using Suc.prems(2) T by (simp add: safe_between)
  have p: "parseInt (if b then decimal c else tag_values G ! 0) = Num c"
    using Suc.prems(3) sc T by (auto simp: v0 parseInt_decimal num_def)
  have step: "tick mk (w\<lparr>entities := es @ [marker_entity i d (bx, by, bz) G (decimal c) b]\<rparr>) =
     Inr (w\<lparr>entities := es @ [marker_entity i d (bx, by, bz) G (decimal (c - 1)) True]\<rparr>)"
    unfolding tick_single [OF gf Gs(1)]
    by (rule processEntity_countdown [OF oth Gs(2) blk p c])
  have "int j < c - 1" "c - 1 \<le> T" using Suc.prems(1,2) by simp_all
  from Suc.IH [OF this, of True] show ?case
    by (simp add: step algebra_simps)
qed

lemma run_snoc:
  "run mk j x = ([], x') \<Longrightarrow> tick mk x' = Inr x'' \<Longrightarrow> run mk (Suc j) x = ([], x'')"
proof (induction j arbitrary: x)
  case 0
  then show ?case by simp
next
  case (Suc j)
  from Suc.prems(1) obtain w1 where w1: "tick mk x = Inr w1" "run mk j w1 = ([], x')"
    by (auto split: sum.splits prod.splits)
  from Suc.IH [OF w1(2) Suc.prems(2)] w1(1) show ?case by simp
qed

lemma run_period:
  fixes T :: int
  assumes gf: "list_all (\<lambda>e. first_gen_tag e = None) es"
    and oth: "list_all (\<lambda>e. eid e \<noteq> i) es"
    and blk: "blocks w (d, (bx, by, bz)) = Some t" "t \<noteq> ''minecraft:air''"
    and acc: "blocks w (d, (bx, by + 2, bz)) \<noteq> None"
    and Gs: "startsWith G ''gen:''" "G \<noteq> ''count_initialized''"
    and v: "tag_values G ! 0 = decimal T"
      "mk (nth_opt (tag_values G) 1) (parseInt_opt (nth_opt (tag_values G) 2)) = Some st"
    and T: "0 < T" "safe T"
  shows "run mk (nat T) (w\<lparr>entities := es @ [marker_entity i d (bx, by, bz) G (decimal T) False]\<rparr>) =
       ([], w\<lparr>entities := es @ [marker_entity i d (bx, by, bz) G (decimal T) True],
               items := items w @ [(d, st, (of_int bx + 1/2, of_int by + 2, of_int bz + 1/2))]\<rparr>)"
proof -
  let ?st = "\<lambda>c b. w\<lparr>entities := es @ [marker_entity i d (bx, by, bz) G (decimal c) b]\<rparr>"
  have pT: "parseInt (decimal T) = Num T" using T(2) by (simp add: parseInt_decimal num_def)
  have last: "tick mk (?st 1 b) =
     Inr (w\<lparr>entities := es @ [marker_entity i d (bx, by, bz) G (decimal T) True],
            items := items w @ [(d, st, (of_int bx + 1/2, of_int by + 2, of_int bz + 1/2))]\<rparr>)"
    if "b \<or> T = 1" for b
  proof -
    have s1: "safe 1" "safe (1 - 1)" by (simp_all add: safe_def MAX_SAFE_INTEGER_def)
    have p: "parseInt (if b then decimal 1 else tag_values G ! 0) = Num 1"
      using that s1 by (auto simp: v(1) parseInt_decimal num_def)
    have le: "(1::int) \<le> 1" by simp
    have l2: "String_js (parseInt (tag_values G ! 0)) = Some (decimal T)"
      using T(2) by (simp add: v(1) pT)
    show ?thesis
      unfolding tick_single [OF gf Gs(1)]
      by (rule processEntity_emit [where mk = mk and b = b and l = "decimal 1" and c = 1
          and G = G and st = st, OF oth Gs(2) blk p le s1(2) v(2) acc l2])
  qed
  obtain k where k: "nat T = Suc k" using T(1) by (cases "nat T") auto
  then have Tk: "T = int k + 1" by linarith
  have "int k < T" "T \<le> T" using Tk by simp_all
  from run_before [OF gf oth blk Gs v(1) T(2) this, of False mk]
  have before: "run mk k (?st T False) = ([], ?st 1 (0 < k))"
    by (simp add: Tk)
  have "0 < k \<or> T = 1" using Tk by auto
  from run_snoc [OF before last [OF this]] show ?thesis
    unfolding k .
qed

lemma setup_period:
  fixes T n :: int
  assumes T: "0 < T" "safe T" and comma: "CHR '','' \<notin> set iid"
    and mk: "mk (Some iid) (Num n) = Some st" and n: "safe n"
    and ids: "ids_below w" and nog: "no_generators w"
    and blk: "blocks w (d, (bx, by, bz)) = Some t" "t \<noteq> ''minecraft:air''"
    and acc: "blocks w (d, (bx, by + 2, bz)) \<noteq> None" "blocks w (d, (bx, by + 99, bz)) \<noteq> None"
      "blocks w (d, (bx, by + 100, bz)) \<noteq> None"
    and pos: "safe bx" "safe by" "safe bz"
  obtains G where "gen_tag (settings T iid n) (bx, by, bz) = Some G"
    and "setUpArmorStand w d (bx, by, bz) (settings T iid n) =
      Inr (w\<lparr>blocks := (blocks w)((d, (bx, by + 99, bz)) \<mapsto> ''minecraft:barrier''),
            entities := entities w @ [marker_entity (next_id w) d (bx, by, bz) G (decimal T) False],
            next_id := Suc (next_id w)\<rparr>)"
    and "run mk (nat T - 1)
        (w\<lparr>blocks := (blocks w)((d, (bx, by + 99, bz)) \<mapsto> ''minecraft:barrier''),
            entities := entities w @ [marker_entity (next_id w) d (bx, by, bz) G (decimal T) False],
            next_id := Suc (next_id w)\<rparr>) =
      ([], w\<lparr>blocks := (blocks w)((d, (bx, by + 99, bz)) \<mapsto> ''minecraft:barrier''),
            entities := entities w @ [marker_entity (next_id w) d (bx, by, bz) G (decimal 1) (1 < T)],
            next_id := Suc (next_id w)\<rparr>)"
    and "run mk (nat T)
        (w\<lparr>blocks := (blocks w)((d, (bx, by + 99, bz)) \<mapsto> ''minecraft:barrier''),
            entities := entities w @ [marker_entity (next_id w) d (bx, by, bz) G (decimal T) False],
            next_id := Suc (next_id w)\<rparr>) =
      ([], w\<lparr>blocks := (blocks w)((d, (bx, by + 99, bz)) \<mapsto> ''minecraft:barrier''),
            entities := entities w @ [marker_entity (next_id w) d (bx, by, bz) G (decimal T) True],
            items := items w @ [(d, st, (of_int bx + 1/2, of_int by + 2, of_int bz + 1/2))],
            next_id := Suc (next_id w)\<rparr>)"
proof -
  have sT: "String_js (Num T) = Some (decimal T)" and sn: "String_js (Num n) = Some (decimal n)"
    using T(2) n by simp_all
  from gen_tag_tracked [OF comma sT sn pos] obtain G
    where G: "gen_tag (settings T iid n) (bx, by, bz) = Some G"
      "tag_values G = [decimal T, iid, decimal n, decimal bx, decimal by, decimal bz]"
      "startsWith G ''gen:''" "G \<noteq> ''count_initialized''"
    unfolding settings_def by blast
  let ?W = "w\<lparr>blocks := (blocks w)((d, (bx, by + 99, bz)) \<mapsto> ''minecraft:barrier''), next_id := Suc (next_id w)\<rparr>"
  have tk: "String_js (ticks (settings T iid n)) = Some (decimal T)"
    using sT by (simp add: settings_def)
  have 1: "setUpArmorStand w d (bx, by, bz) (settings T iid n) =
      Inr (w\<lparr>blocks := (blocks w)((d, (bx, by + 99, bz)) \<mapsto> ''minecraft:barrier''),
            entities := entities w @ [marker_entity (next_id w) d (bx, by, bz) G (decimal T) False],
            next_id := Suc (next_id w)\<rparr>)"
    by (rule setUp_closed [OF ids acc(2,3) tk G(1)])
  have gf: "list_all (\<lambda>e. first_gen_tag e = None) (entities w)"
    using nog by (simp add: no_generators_def)
  note oth = ids_below_other [OF ids]
  have blk': "blocks ?W (d, (bx, by, bz)) = Some t" using blk(1) by simp
  have acc': "blocks ?W (d, (bx, by + 2, bz)) \<noteq> None" using acc(1) by simp
  have v0: "tag_values G ! 0 = decimal T" by (simp add: G(2))
  have vm: "mk (nth_opt (tag_values G) 1) (parseInt_opt (nth_opt (tag_values G) 2)) = Some st"
    using mk n by (simp add: G(2) nth_opt_def parseInt_opt_def parseInt_decimal num_def)
  have "int (nat T - 1) < T" "T \<le> T" using T(1) by linarith+
  from run_before [OF gf oth blk' blk(2) G(3,4) v0 T(2) this, of False mk]
  have 2: "run mk (nat T - 1)
        (?W\<lparr>entities := entities w @ [marker_entity (next_id w) d (bx, by, bz) G (decimal T) False]\<rparr>) =
      ([], ?W\<lparr>entities := entities w @ [marker_entity (next_id w) d (bx, by, bz) G (decimal 1) (1 < T)]\<rparr>)"
    using T(1) by (simp add: nat_diff_distrib' of_nat_diff)
  from run_period [where mk = mk and st = st, OF gf oth blk' blk(2) acc' G(3,4) v0 vm T]
  have 3: "run mk (nat T)
        (?W\<lparr>entities := entities w @ [marker_entity (next_id w) d (bx, by, bz) G (decimal T) False]\<rparr>) =
      ([], ?W\<lparr>entities := entities w @ [marker_entity (next_id w) d (bx, by, bz) G (decimal T) True],
              items := items w @ [(d, st, (of_int bx + 1/2, of_int by + 2, of_int bz + 1/2))]\<rparr>)"
    by simp
  have eq1: "w\<lparr>blocks := B, entities := E, next_id := N\<rparr> = w\<lparr>blocks := B, next_id := N\<rparr>\<lparr>entities := E\<rparr>"
    for B E N by simp
  have eq2: "w\<lparr>blocks := B, entities := E, items := I, next_id := N\<rparr>
      = w\<lparr>blocks := B, next_id := N\<rparr>\<lparr>entities := E, items := I\<rparr>"
    for B E I N by simp
  show thesis
    by (rule that [OF G(1) 1]) (unfold eq1 eq2, rule 2, rule 3)
qed

section \<open>Placement Setup followed by a full interval (claims C1 and C5)\<close>

text \<open>
  Claim C1, as amended. Take a configuration with an interval \<open>T\<close>, \<open>0 < T \<le> 2^53 - 1\<close>,
  a count and anchor coordinates of magnitude at most \<open>2^53 - 1\<close>, an item identifier
  without a comma, and an item system that builds the stack as configured; and a world
  without generator markers in which the targeted block is present (not air) and the
  positions 2, 99 and 100 blocks above it are accessible. Then Placement Setup
  succeeds; the first \<open>T - 1\<close> ticks throw nothing and emit nothing; the \<open>T\<close>-th tick
  emits exactly one item stack of the configured identifier and count, 98 below the
  marker (the centre of the column, two blocks above the target), and leaves the label at
  \<open>T\<close> again. The barrier itself plays no part in this: \<open>processEntity\<close> never reads it.
\<close>

theorem C1_setup_then_interval_steps:
  fixes T n :: int
  assumes "0 < T" and "safe T" and "CHR '','' \<notin> set iid"
    and "new_ItemStack (Some iid) (Num n) = Some (iid, n)" and "safe n"
    and "ids_below w" and "no_generators w"
    and "blocks w (d, (bx, by, bz)) = Some t" and "t \<noteq> ''minecraft:air''"
    and "blocks w (d, (bx, by + 2, bz)) \<noteq> None" and "blocks w (d, (bx, by + 99, bz)) \<noteq> None"
    and "blocks w (d, (bx, by + 100, bz)) \<noteq> None"
    and "safe bx" and "safe by" and "safe bz"
  shows "\<exists>w0 w1 w'. setUpArmorStand w d (bx, by, bz) (settings T iid n) = Inr w0
     \<and> run new_ItemStack (nat T - 1) w0 = ([], w1) \<and> items w1 = items w
     \<and> run new_ItemStack (nat T) w0 = ([], w')
     \<and> items w' = items w @ [(d, (iid, n), (of_int bx + 1/2, of_int by + 100 - of_int ITEM_SPAWN_OFFSET, of_int bz + 1/2))]
     \<and> map_option nameTag (find_entity w' (next_id w)) = Some (decimal T)
     \<and> parseInt (decimal T) = Num T"
proof -
  from setup_period [where mk = new_ItemStack and st = "(iid, n)", OF assms]
  obtain G where *:
    "setUpArmorStand w d (bx, by, bz) (settings T iid n) =
      Inr (w\<lparr>blocks := (blocks w)((d, (bx, by + 99, bz)) \<mapsto> ''minecraft:barrier''),
            entities := entities w @ [marker_entity (next_id w) d (bx, by, bz) G (decimal T) False],
            next_id := Suc (next_id w)\<rparr>)"
    "run new_ItemStack (nat T - 1)
        (w\<lparr>blocks := (blocks w)((d, (bx, by + 99, bz)) \<mapsto> ''minecraft:barrier''),
            entities := entities w @ [marker_entity (next_id w) d (bx, by, bz) G (decimal T) False],
            next_id := Suc (next_id w)\<rparr>) =
      ([], w\<lparr>blocks := (blocks w)((d, (bx, by + 99, bz)) \<mapsto> ''minecraft:barrier''),
            entities := entities w @ [marker_entity (next_id w) d (bx, by, bz) G (decimal 1) (1 < T)],
            next_id := Suc (next_id w)\<rparr>)"
    "run new_ItemStack (nat T)
        (w\<lparr>blocks := (blocks w)((d, (bx, by + 99, bz)) \<mapsto> ''minecraft:barrier''),
            entities := entities w @ [marker_entity (next_id w) d (bx, by, bz) G (decimal T) False],
            next_id := Suc (next_id w)\<rparr>) =
      ([], w\<lparr>blocks := (blocks w)((d, (bx, by + 99, bz)) \<mapsto> ''minecraft:barrier''),
            entities := entities w @ [marker_entity (next_id w) d (bx, by, bz) G (decimal T) True],
            items := items w @ [(d, (iid, n), (of_int bx + 1/2, of_int by + 2, of_int bz + 1/2))],
            next_id := Suc (next_id w)\<rparr>)"
    by blast
  note oth = ids_below_other [OF assms(6)]
  let ?w0 = "w\<lparr>blocks := (blocks w)((d, (bx, by + 99, bz)) \<mapsto> ''minecraft:barrier''),
            entities := entities w @ [marker_entity (next_id w) d (bx, by, bz) G (decimal T) False],
            next_id := Suc (next_id w)\<rparr>"
  let ?w1 = "w\<lparr>blocks := (blocks w)((d, (bx, by + 99, bz)) \<mapsto> ''minecraft:barrier''),
            entities := entities w @ [marker_entity (next_id w) d (bx, by, bz) G (decimal 1) (1 < T)],
            next_id := Suc (next_id w)\<rparr>"
  let ?w' = "w\<lparr>blocks := (blocks w)((d, (bx, by + 99, bz)) \<mapsto> ''minecraft:barrier''),
            entities := entities w @ [marker_entity (next_id w) d (bx, by, bz) G (decimal T) True],
            items := items w @ [(d, (iid, n), (of_int bx + 1/2, of_int by + 2, of_int bz + 1/2))],
            next_id := Suc (next_id w)\<rparr>"
  show ?thesis
  proof (intro exI conjI)
    show "setUpArmorStand w d (bx, by, bz) (settings T iid n) = Inr ?w0" by (rule *(1))
    show "run new_ItemStack (nat T - 1) ?w0 = ([], ?w1)" by (rule *(2))
    show "items ?w1 = items w" by simp
    show "run new_ItemStack (nat T) ?w0 = ([], ?w')" by (rule *(3))
    show "items ?w' = items w @ [(d, (iid, n), (of_int bx + 1/2, of_int by + 100 - of_int ITEM_SPAWN_OFFSET, of_int bz + 1/2))]"
      by (simp add: ITEM_SPAWN_OFFSET_def)
    show "map_option nameTag (find_entity ?w' (next_id w)) = Some (decimal T)"
      by (simp add: find_entity_def find_other [OF oth] marker_simps)
    show "parseInt (decimal T) = Num T"
      using assms(2) by (simp add: parseInt_decimal num_def)
  qed
qed

theorem C1_setup_then_interval_steps_witness:
  "(0::int) < 2 \<and> safe 2 \<and> safe 3 \<and> safe 64 \<and> CHR '','' \<notin> set ''minecraft:diamond'' \<and>
   demo_items (Some ''minecraft:diamond'') (Num 3) = Some (''minecraft:diamond'', 3) \<and>
   ids_below world0 \<and> no_generators world0 \<and>
   blocks world0 (Overworld, (0, 64, 0)) = Some ''minecraft:stone'' \<and>
   items (snd (run demo_items (nat 2) (the_world (setUpArmorStand world0 Overworld (0, 64, 0) (settings 2 ''minecraft:diamond'' 3)))))
       = [(Overworld, (''minecraft:diamond'', 3), (1/2, 66, 1/2))]"
  using C1_setup_then_interval_steps [of 2 "''minecraft:diamond''" demo_items 3 world0 Overworld 0 64 0 "''minecraft:stone''"]
  by (auto simp: world0_def demo_items_def ids_below_def no_generators_def the_world_def ITEM_SPAWN_OFFSET_def
      safe_def MAX_SAFE_INTEGER_def)

text \<open>
  As stated, C1 fails for a valid configuration whose item the item system rejects: with
  interval 1, the well-formed identifier \<open>minecraft:no_such_item\<close> and count 1, the
  first tick emits nothing and removes the marker.
\<close>

theorem C1_counterexample:
  "(0::int) < 1 \<and> startsWith ''minecraft:no_such_item'' ''minecraft:'' \<and>
   blocks c1_world (Overworld, (0, 163, 0)) = Some ''minecraft:barrier'' \<and>
   map nameTag (entities c1_world) = [''1''] \<and>
   fst (run demo_items (nat 1) c1_world) = [] \<and>
   items (snd (run demo_items (nat 1) c1_world)) = [] \<and>
   entities (snd (run demo_items (nat 1) c1_world)) = []"
  by code_simp


text \<open>
  Claim C5, as amended. Take an item system that builds the stack of one
  \<open>minecraft:diamond\<close>, and a world without generator markers in which the block
  \<open>(0, 64, 0)\<close> is present (not air) and the positions \<open>(0, 66, 0)\<close>, \<open>(0, 163, 0)\<close> and
  \<open>(0, 164, 0)\<close> are accessible. A generator configured with interval 1, item
  \<open>minecraft:diamond\<close> and count 1 on the block \<open>(0, 64, 0)\<close> has its marker at
  \<open>(0.5, 164, 0.5)\<close>; a single tick spawns exactly one diamond item at \<open>(0.5, 66, 0.5)\<close>,
  98 below the marker and two blocks above the target, and the label is \<open>1\<close> again.
\<close>

theorem C5_diamond_scenario:
  assumes "new_ItemStack (Some ''minecraft:diamond'') (Num 1) = Some (''minecraft:diamond'', 1)"
    and "ids_below w" and "no_generators w"
    and "blocks w (d, (0, 64, 0)) = Some t" and "t \<noteq> ''minecraft:air''"
    and "blocks w (d, (0, 66, 0)) \<noteq> None" and "blocks w (d, (0, 163, 0)) \<noteq> None"
    and "blocks w (d, (0, 164, 0)) \<noteq> None"
  shows "\<exists>w0 w'. setUpArmorStand w d (0, 64, 0) (settings 1 ''minecraft:diamond'' 1) = Inr w0
     \<and> map_option location (find_entity w0 (next_id w)) = Some (1/2, 164, 1/2)
     \<and> tick new_ItemStack w0 = Inr w'
     \<and> items w' = items w @ [(d, (''minecraft:diamond'', 1), (1/2, 164 - of_int ITEM_SPAWN_OFFSET, 1/2))]
     \<and> 164 - of_int ITEM_SPAWN_OFFSET = (66::rat)
     \<and> map_option nameTag (find_entity w' (next_id w)) = Some ''1''"
proof -
  have T: "(0::int) < 1" "safe 1" and comma: "CHR '','' \<notin> set ''minecraft:diamond''"
    and pos: "safe 0" "safe 64"
    by (simp_all add: safe_def MAX_SAFE_INTEGER_def)
  have acc: "blocks w (d, (0, 64 + 2, 0)) \<noteq> None" "blocks w (d, (0, 64 + 99, 0)) \<noteq> None"
    "blocks w (d, (0, 64 + 100, 0)) \<noteq> None"
    using assms(6-8) by simp_all
  from setup_period [where mk = new_ItemStack and st = "(''minecraft:diamond'', 1)",
      OF T comma assms(1) T(2) assms(2-5) acc pos(1,2,1)]
  obtain G where *:
    "setUpArmorStand w d (0, 64, 0) (settings 1 ''minecraft:diamond'' 1) =
      Inr (w\<lparr>blocks := (blocks w)((d, (0, 64 + 99, 0)) \<mapsto> ''minecraft:barrier''),
            entities := entities w @ [marker_entity (next_id w) d (0, 64, 0) G (decimal 1) False],
            next_id := Suc (next_id w)\<rparr>)"
    "run new_ItemStack (nat 1)
        (w\<lparr>blocks := (blocks w)((d, (0, 64 + 99, 0)) \<mapsto> ''minecraft:barrier''),
            entities := entities w @ [marker_entity (next_id w) d (0, 64, 0) G (decimal 1) False],
            next_id := Suc (next_id w)\<rparr>) =
      ([], w\<lparr>blocks := (blocks w)((d, (0, 64 + 99, 0)) \<mapsto> ''minecraft:barrier''),
            entities := entities w @ [marker_entity (next_id w) d (0, 64, 0) G (decimal 1) True],
            items := items w @ [(d, (''minecraft:diamond'', 1), (of_int 0 + 1/2, of_int 64 + 2, of_int 0 + 1/2))],
            next_id := Suc (next_id w)\<rparr>)"
    by blast
  let ?w0 = "w\<lparr>blocks := (blocks w)((d, (0, 64 + 99, 0)) \<mapsto> ''minecraft:barrier''),
                entities := entities w @ [marker_entity (next_id w) d (0, 64, 0) G (decimal 1) False],
                next_id := Suc (next_id w)\<rparr>"
  let ?w' = "w\<lparr>blocks := (blocks w)((d, (0, 64 + 99, 0)) \<mapsto> ''minecraft:barrier''),
            entities := entities w @ [marker_entity (next_id w) d (0, 64, 0) G (decimal 1) True],
            items := items w @ [(d, (''minecraft:diamond'', 1), (of_int 0 + 1/2, of_int 64 + 2, of_int 0 + 1/2))],
            next_id := Suc (next_id w)\<rparr>"
  note oth = ids_below_other [OF assms(2)]
  have one: "decimal 1 = ''1''" by code_simp
  have t: "tick new_ItemStack ?w0 = Inr ?w'"
    using *(2) by (auto split: sum.splits prod.splits)
  show ?thesis
  proof (intro exI conjI)
    show "setUpArmorStand w d (0, 64, 0) (settings 1 ''minecraft:diamond'' 1) = Inr ?w0" by (rule *(1))
    show "map_option location (find_entity ?w0 (next_id w)) = Some (1/2, 164, 1/2)"
      by (simp add: find_entity_def find_other [OF oth] marker_simps)
    show "tick new_ItemStack ?w0 = Inr ?w'" by (rule t)
    show "items ?w' = items w @ [(d, (''minecraft:diamond'', 1), (1/2, 164 - of_int ITEM_SPAWN_OFFSET, 1/2))]"
      by (simp add: ITEM_SPAWN_OFFSET_def)
    show "164 - of_int ITEM_SPAWN_OFFSET = (66::rat)" by (simp add: ITEM_SPAWN_OFFSET_def)
    show "map_option nameTag (find_entity ?w' (next_id w)) = Some ''1''"
      by (simp add: find_entity_def find_other [OF oth] marker_simps one)
  qed
qed

theorem C5_diamond_scenario_witness:
  "demo_items (Some ''minecraft:diamond'') (Num 1) = Some (''minecraft:diamond'', 1) \<and>
   ids_below world0 \<and> no_generators world0 \<and>
   blocks world0 (Overworld, (0, 64, 0)) = Some ''minecraft:stone'' \<and>
   items (the_world (tick demo_items (the_world
       (setUpArmorStand world0 Overworld (0, 64, 0) (settings 1 ''minecraft:diamond'' 1)))))
     = [(Overworld, (''minecraft:diamond'', 1), (1/2, 66, 1/2))]"
  using C5_diamond_scenario [of demo_items world0 Overworld "''minecraft:stone''"]
  by (auto simp: world0_def demo_items_def ids_below_def no_generators_def the_world_def ITEM_SPAWN_OFFSET_def)

text \<open>
  As stated, C5 fails on the position: the diamond appears in the block \<open>(0, 66, 0)\<close>,
  above the target, not near \<open>(0, 62, 0)\<close> below it.
\<close>

theorem C5_position_counterexample:
  "items (the_world (tick demo_items c5_world)) = [(Overworld, (''minecraft:diamond'', 1), (1/2, 66, 1/2))] \<and>
   block_of (1/2, 66, 1/2) = (0, 66, 0) \<and> block_of (1/2, 66, 1/2) \<noteq> (0, 62, 0)"
  by code_simp

section \<open>Protection Guard (claim C7)\<close>

lemma find_generator_iff: "find_generator pos es = list_ex (is_marker_at pos) es"
  by (induction es) auto

text \<open>
  Claim C7. Suppose a barrier sits 99 above the broken block and an armor stand with a
  tag starting with \<open>gen:\<close> is in the same dimension at a position whose floored
  coordinates are those of the block above the barrier. Then the handler cancels the
  removal and notifies the player when the player is not in creative mode, and leaves
  the event uncancelled, with no message, when the player is in creative mode.
\<close>

theorem C7_protection_guard:
  assumes "blocks w (d, (bx, by + 99, bz)) = Some ''minecraft:barrier''"
    and "e \<in> set (entities w)" and "edim e = d" and "typeId e = ''minecraft:armor_stand''"
    and "t \<in> set (tags e)" and "startsWith t ''gen:''"
    and "location e = (lx, ly, lz)" and "\<lfloor>lx\<rfloor> = bx" and "\<lfloor>ly\<rfloor> = by + 100" and "\<lfloor>lz\<rfloor> = bz"
  shows "playerBreakBlock w gameMode d (bx, by, bz) =
           (if gameMode = creative then Inr (False, []) else Inr (True, [CreativeOnly]))"
proof -
  have m: "is_marker_at (of_int bx, of_int by + of_int BARRIER_OFFSET + 1, of_int bz) e"
    using assms(4-10)
    by (auto simp: is_marker_at_def list_ex_iff block_of_def BARRIER_OFFSET_def)
  have "e \<in> set (getEntities w d)"
    using assms(2,3) by (simp add: getEntities_def)
  with m have g: "find_generator (of_int bx, of_int by + of_int BARRIER_OFFSET + 1, of_int bz) (getEntities w d)"
    unfolding find_generator_iff list_ex_iff by blast
  have b: "getBlock w d (of_int bx, of_int by + of_int BARRIER_OFFSET, of_int bz) = Some ''minecraft:barrier''"
    using assms(1) by (simp add: getBlock_def block_of_def BARRIER_OFFSET_def)
  show ?thesis
    unfolding playerBreakBlock_def vec_of_def prod.case b option.case Let_def
    using g by simp
qed

theorem C7_protection_guard_witness:
  "blocks c5_world (Overworld, (0, 163, 0)) = Some ''minecraft:barrier'' \<and>
   map location (entities c5_world) = [(1/2, 164, 1/2)] \<and>
   playerBreakBlock c5_world survival Overworld (0, 64, 0) = Inr (True, [CreativeOnly]) \<and>
   playerBreakBlock c5_world creative Overworld (0, 64, 0) = Inr (False, [])"
proof -
  let ?e = "marker_entity 0 Overworld (0, 64, 0) ''gen:1,minecraft:diamond,1,0,64,0'' ''1'' False"
  have b: "blocks c5_world (Overworld, (0, 64 + 99, 0)) = Some ''minecraft:barrier''" by code_simp
  have es: "entities c5_world = [?e]" by code_simp
  then have e: "?e \<in> set (entities c5_world)" by simp
  have e1: "edim ?e = Overworld" "typeId ?e = ''minecraft:armor_stand''"
    "''gen:1,minecraft:diamond,1,0,64,0'' \<in> set (tags ?e)"
    "startsWith ''gen:1,minecraft:diamond,1,0,64,0'' ''gen:''"
    "location ?e = (1/2, 164, 1/2)"
    by (simp_all add: marker_entity_def startsWith_def)
  have fl: "\<lfloor>1/2 :: rat\<rfloor> = 0" "\<lfloor>164 :: rat\<rfloor> = 64 + 100"
    by (simp_all add: floor_eq_iff)
  note g = C7_protection_guard [OF b e e1 fl(1) fl(2) fl(1)]
  from g [of survival] g [of creative] b es e1(5) show ?thesis by simp
qed

section \<open>Configuration form and item use (claims C9 and C10)\<close>

text \<open>
  Claim C9, as amended. A submission that \<open>validate\<close> rejects (a numeric field without
  digits after white space, sign and \<open>0x\<close>, or an item identifier that does not start
  with \<open>minecraft:\<close>) gives the player the message that the input is invalid and leaves
  the world as it was; so do a rejected form and a closed form, with the message that
  the form failed. Whenever the form leaves the entity list changed, with numbers that
  are tracked, the submission passed \<open>validate\<close>: the interval and the count parsed as
  integers (of any sign, zero included, of magnitude at most \<open>2^53 - 1\<close>), the item
  identifier starts with \<open>minecraft:\<close>, the new world is the one \<open>setUpArmorStand\<close>
  builds for these settings, and the player gets no message.
\<close>

theorem C9_validation_gate:
  "(\<not> validate (fromFormValues formValues) \<longrightarrow>
      showSettingModal w d block (FormData (Some formValues)) = Some ([InvalidInput], w)) \<and>
   showSettingModal w d block ShowRejected = Some ([FormFailed FormError], w) \<and>
   showSettingModal w d block (FormData None) = Some ([FormFailed TypeError], w) \<and>
   (showSettingModal w d block response = Some (msgs, w') \<and> entities w' \<noteq> entities w \<longrightarrow>
      (\<exists>vals T iid n. response = FormData (Some vals) \<and> validate (fromFormValues vals)
         \<and> fromFormValues vals = settings T iid n \<and> safe T \<and> safe n
         \<and> startsWith iid ''minecraft:''
         \<and> setUpArmorStand w d block (settings T iid n) = Inr w' \<and> msgs = []))"
proof (intro conjI impI)
  assume "\<not> validate (fromFormValues formValues)"
  then show "showSettingModal w d block (FormData (Some formValues)) = Some ([InvalidInput], w)"
    by (simp add: showSettingModal_def)
next
  show "showSettingModal w d block ShowRejected = Some ([FormFailed FormError], w)"
    by (simp add: showSettingModal_def)
  show "showSettingModal w d block (FormData None) = Some ([FormFailed TypeError], w)"
    by (simp add: showSettingModal_def)
next
  assume a: "showSettingModal w d block response = Some (msgs, w') \<and> entities w' \<noteq> entities w"
  then obtain vals where r: "response = FormData (Some vals)"
    by (cases response) (auto simp: showSettingModal_def split: option.splits)
  let ?s = "fromFormValues vals"
  from a r have v: "validate ?s"
    by (auto simp: showSettingModal_def Let_def split: if_splits)
  obtain bx "by" bz where b: "block = (bx, by, bz)" by (cases block) auto
  have fail: "setUpArmorStand w d block s' = Inl (err, x) \<Longrightarrow> err \<noteq> NotTracked \<Longrightarrow> entities x = entities w"
    for s' err x
    unfolding b
    by (auto simp: setUpArmorStand_def vec_of_def setBlockType_def spawnEntity_def
        split: option.splits if_splits)
  from a r v have ok: "setUpArmorStand w d block ?s = Inr w'" and m: "msgs = []"
    using fail [of ?s]
    by (auto simp: showSettingModal_def Let_def split: sum.splits if_splits)
  from ok have tr: "String_js (ticks ?s) \<noteq> None" "gen_tag ?s block \<noteq> None"
    unfolding b
    by (auto simp: setUpArmorStand_def vec_of_def split: option.splits)
  from tr(2) have tc: "String_js (itemCount ?s) \<noteq> None"
    unfolding b by (auto simp: gen_tag_def split: option.splits)
  from v tr(1) tc obtain T n iid where s: "ticks ?s = Num T" "safe T" "itemCount ?s = Num n" "safe n"
      "itemId ?s = Some iid" "startsWith iid ''minecraft:''"
    by (cases "ticks ?s"; cases "itemCount ?s"; cases "itemId ?s")
       (auto simp: validate_def split: if_splits)
  then have eq: "?s = settings T iid n"
    by (simp add: settings_def)
  from r v eq s(2,4,6) ok m
  show "\<exists>vals T iid n. response = FormData (Some vals) \<and> validate (fromFormValues vals)
         \<and> fromFormValues vals = settings T iid n \<and> safe T \<and> safe n
         \<and> startsWith iid ''minecraft:''
         \<and> setUpArmorStand w d block (settings T iid n) = Inr w' \<and> msgs = []"
    by metis
qed

theorem C9_validation_gate_witness:
  "\<not> validate (fromFormValues [''abc'', ''minecraft:diamond'', ''1'']) \<and>
   showSettingModal world0 Overworld (0, 64, 0) (FormData (Some [''abc'', ''minecraft:diamond'', ''1'']))
     = Some ([InvalidInput], world0) \<and>
   map_option (entities \<circ> snd)
      (showSettingModal world0 Overworld (0, 64, 0) (FormData (Some [''5'', ''minecraft:diamond'', ''1''])))
     \<noteq> Some (entities world0) \<and>
   map_option fst (showSettingModal world0 Overworld (0, 64, 0) (FormData (Some [''5'', ''minecraft:diamond'', ''1''])))
     = Some [] \<and>
   validate (fromFormValues [''5'', ''minecraft:diamond'', ''1''])"
proof -
  let ?bad = "[''abc'', ''minecraft:diamond'', ''1'']"
  let ?good = "FormData (Some [''5'', ''minecraft:diamond'', ''1''])"
  let ?r = "showSettingModal world0 Overworld (0, 64, 0) ?good"
  have nv: "\<not> validate (fromFormValues ?bad)" by code_simp
  have "?r \<noteq> None" by code_simp
  then obtain msgs w' where r: "?r = Some (msgs, w')" by (cases ?r) auto
  have ch: "map_option (entities \<circ> snd) ?r \<noteq> Some (entities world0)"
    by code_simp
  with r have ch': "entities w' \<noteq> entities world0" by simp
  note g = C9_validation_gate [of ?bad world0 Overworld "(0, 64, 0)" ?good msgs w']
  from g nv r ch' have "msgs = []"
    "showSettingModal world0 Overworld (0, 64, 0) (FormData (Some ?bad)) = Some ([InvalidInput], world0)"
    by auto
  moreover have "validate (fromFormValues [''5'', ''minecraft:diamond'', ''1''])" by code_simp
  ultimately show ?thesis using nv r ch by simp
qed

text \<open>
  As stated, C9 fails in its consequence: the form values \<open>0\<close>, \<open>minecraft:diamond\<close>,
  \<open>-3\<close> pass \<open>validate\<close>, and a generator with interval 0 and count -3 is created.
\<close>

theorem C9_nonpositive_counterexample:
  "validate (fromFormValues [''0'', ''minecraft:diamond'', ''-3'']) \<and>
   fromFormValues [''0'', ''minecraft:diamond'', ''-3''] = settings 0 ''minecraft:diamond'' (- 3) \<and>
   map_option fst (showSettingModal world0 Overworld (0, 64, 0)
       (FormData (Some [''0'', ''minecraft:diamond'', ''-3'']))) = Some [] \<and>
   map_option (map tags \<circ> entities \<circ> snd) (showSettingModal world0 Overworld (0, 64, 0)
       (FormData (Some [''0'', ''minecraft:diamond'', ''-3''])))
     = Some [[''gen:0,minecraft:diamond,-3,0,64,0'']]"
  by code_simp

text \<open>
  Claim C10. The item-use handler reads \<open>.block\<close> of the raycast result before it looks
  at the item or at the sneaking stance: when the view direction hits no block, the
  handler throws a \<open>TypeError\<close>, whatever the item, the stance and the form's answer.
\<close>

theorem C10_no_target_throws:
  "itemUse w d item isSneaking None response = Inl TypeError"
  by (simp add: itemUse_def)

theorem C10_no_target_throws_witness:
  "itemUse world0 Overworld ''minecraft:stick'' True None ShowRejected = Inl TypeError \<and>
   itemUse world0 Overworld ''minecraft:trial_key'' False None ShowRejected = Inl TypeError"
  using C10_no_target_throws [of world0 Overworld "''minecraft:stick''" True ShowRejected]
    C10_no_target_throws [of world0 Overworld "''minecraft:trial_key''" False ShowRejected]
  by simp

section \<open>One step of the tick processor on an arbitrary marker (claims C2 and C8)\<close>

lemma find_map: "(\<And>x. P (g x) = P x) \<Longrightarrow> find P (map g xs) = map_option g (find P xs)"
  by (induction xs) auto

lemma find_filter_none: "find P (filter (\<lambda>x. \<not> P x) xs) = None"
  by (induction xs) auto

lemma eid_ops [simp]:
  "eid (setNameTag l e) = eid e" "eid (addTag t e) = eid e" "eid (addEffect a k e) = eid e"
  by (simp_all add: setNameTag_def addTag_def addEffect_def)

lemma nameTag_ops [simp]:
  "nameTag (setNameTag l e) = l" "nameTag (addTag t e) = nameTag e" "nameTag (addEffect a k e) = nameTag e"
  by (simp_all add: setNameTag_def addTag_def addEffect_def)

lemma upd_entity_fields [simp]:
  "blocks (upd_entity w i f) = blocks w" "items (upd_entity w i f) = items w"
  "broadcasts (upd_entity w i f) = broadcasts w"
  by (simp_all add: upd_entity_def)

lemma sendMessage_fields [simp]:
  "blocks (sendMessage w m) = blocks w" "items (sendMessage w m) = items w"
  "entities (sendMessage w m) = entities w" "broadcasts (sendMessage w m) = broadcasts w @ [m]"
  by (simp_all add: sendMessage_def)

lemma kill_fields [simp]:
  "blocks (kill w i) = blocks w" "items (kill w i) = items w" "broadcasts (kill w i) = broadcasts w"
  "entities (kill w i) = filter (\<lambda>e. eid e \<noteq> i) (entities w)"
  by (simp_all add: kill_def)

lemma find_entity_upd:
  assumes "\<And>e. eid (f e) = eid e"
  shows "find_entity (upd_entity w i f) j = map_option (\<lambda>e. if eid e = i then f e else e) (find_entity w j)"
  unfolding find_entity_def upd_entity_def
  using assms by (simp add: find_map)

lemma find_entity_upd_same:
  assumes "\<And>e. eid (f e) = eid e" "find_entity w i = Some e"
  shows "find_entity (upd_entity w i f) i = Some (f e)"
proof -
  from assms(2) have "eid e = i"
    by (auto simp: find_entity_def find_Some_iff)
  with assms show ?thesis by (simp add: find_entity_upd)
qed

lemma find_entity_sendMessage [simp]: "find_entity (sendMessage w m) j = find_entity w j"
  by (simp add: find_entity_def)

lemma find_entity_kill [simp]: "find_entity (kill w i) i = None"
  by (simp add: find_entity_def find_filter_none)

lemma setBlockType_Some:
  "setBlockType w d v t = Some w' \<Longrightarrow>
     entities w' = entities w \<and> items w' = items w \<and> broadcasts w' = broadcasts w
     \<and> blocks w' = (blocks w)((d, block_of v) \<mapsto> t)"
  by (auto simp: setBlockType_def split: if_splits)

lemma spawnItem_Some:
  "spawnItem w d st v = Some w' \<Longrightarrow>
     entities w' = entities w \<and> broadcasts w' = broadcasts w \<and> blocks w' = blocks w"
  by (auto simp: spawnItem_def split: if_splits)

lemma find_entity_cong: "entities w' = entities w \<Longrightarrow> find_entity w' j = find_entity w j"
  by (simp add: find_entity_def)

lemma filter_upd_kill:
  "filter (\<lambda>e. eid e \<noteq> i) (map (\<lambda>e. if eid e = i then f e else e) es) = filter (\<lambda>e. eid e \<noteq> i) es"
  if "\<And>e. eid (f e) = eid e"
  using that by (induction es) auto

lemma processEntity_present:
  fixes tag :: string
  assumes "find_entity w i = Some e" and "location e = (ex, ey, ez)"
    and "getBlock w d (ex, ey - 100, ez) = Some t" and "t \<noteq> ''minecraft:air''"
  defines "w1 \<equiv> upd_entity w i (addEffect ''invisibility'' 20)"
  defines "w3 \<equiv> (if \<not> hasTag e ''count_initialized''
                   then upd_entity (upd_entity w1 i (setNameTag (tag_values tag ! 0))) i (addTag ''count_initialized'')
                   else w1)"
  defines "count \<equiv> parseInt (if \<not> hasTag e ''count_initialized'' then tag_values tag ! 0 else nameTag e)"
  shows "processEntity mk w i d tag =
     (if \<not> isNaN count then
        (case js_le_zero (js_dec count) of
           None \<Rightarrow> Inl (NotTracked, w3)
         | Some le \<Rightarrow>
            if le then
              (case (case mk (nth_opt (tag_values tag) 1) (parseInt_opt (nth_opt (tag_values tag) 2)) of
                       None \<Rightarrow> None
                     | Some st \<Rightarrow> spawnItem w3 d st (ex, ey - of_int ITEM_SPAWN_OFFSET, ez)) of
                 None \<Rightarrow> (case removeInvalidGenerator w3 d (ex, ey, ez) i of
                            Inl err \<Rightarrow> Inl err
                          | Inr w4 \<Rightarrow> Inr (sendMessage w4 InvalidItemGeneration))
               | Some w4 \<Rightarrow>
                   (case String_js (parseInt (tag_values tag ! 0)) of
                      None \<Rightarrow> Inl (NotTracked, w4)
                    | Some l \<Rightarrow> Inr (upd_entity w4 i (setNameTag l))))
            else
              (case String_js (js_dec count) of
                 None \<Rightarrow> Inl (NotTracked, w3)
               | Some l \<Rightarrow> Inr (upd_entity w3 i (setNameTag l))))
      else Inr (upd_entity w3 i (setNameTag (tag_values tag ! 0))))"
proof -
  have g: "getBlock w1 d (ex, ey - of_int (BARRIER_OFFSET + 1), ez) = Some t"
    using assms(3) by (simp add: getBlock_def BARRIER_OFFSET_def w1_def)
  show ?thesis
    unfolding processEntity_def Let_def assms(1) option.case assms(2) prod.case
      w1_def [symmetric] g w3_def [symmetric] count_def [symmetric]
    using assms(4) by simp
qed

text \<open>The ways a step can end when the generator block is present.\<close>

lemma processEntity_present_cases:
  fixes tag :: string and mk :: item_system
  assumes "find_entity w i = Some e" and "location e = (ex, ey, ez)"
    and "getBlock w d (ex, ey - 100, ez) = Some t" and "t \<noteq> ''minecraft:air''"
    and w3_def: "w3 = (if \<not> hasTag e ''count_initialized''
                   then upd_entity (upd_entity (upd_entity w i (addEffect ''invisibility'' 20)) i
                          (setNameTag (tag_values tag ! 0))) i (addTag ''count_initialized'')
                   else upd_entity w i (addEffect ''invisibility'' 20))"
    and count_def: "count = parseInt (if \<not> hasTag e ''count_initialized'' then tag_values tag ! 0 else nameTag e)"
    and r_def: "r = processEntity mk w i d tag"
  obtains (reset) "count = NaN" "r = Inr (upd_entity w3 i (setNameTag (tag_values tag ! 0)))"
    | (stop) "r = Inl (NotTracked, w3)"
    | (down) c where "count = Num c" "safe c" "0 < c - 1"
        "r = Inr (upd_entity w3 i (setNameTag (decimal (c - 1))))"
    | (emit) w4 l where "entities w4 = entities w3" "broadcasts w4 = broadcasts w3"
        "String_js (parseInt (tag_values tag ! 0)) = Some l"
        "r = Inr (upd_entity w4 i (setNameTag l))"
    | (stop_emitted) w4 where "entities w4 = entities w3" "broadcasts w4 = broadcasts w3"
        "r = Inl (NotTracked, w4)"
    | (fail) "r = (case removeInvalidGenerator w3 d (ex, ey, ez) i of
                     Inl err \<Rightarrow> Inl err
                   | Inr w4 \<Rightarrow> Inr (sendMessage w4 InvalidItemGeneration))"
proof -
  define att where "att = (case mk (nth_opt (tag_values tag) 1) (parseInt_opt (nth_opt (tag_values tag) 2)) of
                   None \<Rightarrow> None
                 | Some st \<Rightarrow> spawnItem w3 d st (ex, ey - of_int ITEM_SPAWN_OFFSET, ez))"
  note pe = processEntity_present [OF assms(1-4), of mk tag,
      folded w3_def count_def r_def att_def]
  have att: "entities w4 = entities w3 \<and> broadcasts w4 = broadcasts w3" if "att = Some w4" for w4
    using that unfolding att_def by (auto split: option.splits dest: spawnItem_Some)
  show thesis
  proof (cases count)
    case NaN
    then have "r = Inr (upd_entity w3 i (setNameTag (tag_values tag ! 0)))" by (simp add: pe)
    with NaN show thesis by (rule reset)
  next
    case Huge
    then have "r = Inl (NotTracked, w3)" by (simp add: pe)
    then show thesis by (rule stop)
  next
    case (Num c)
    show thesis
    proof (cases "safe c \<and> safe (c - 1)")
      case False
      with Num have "r = Inl (NotTracked, w3)" by (auto simp: pe num_def)
      then show thesis by (rule stop)
    next
      case True
      then have d: "js_dec count = Num (c - 1)" "js_le_zero (Num (c - 1)) = Some (c - 1 \<le> 0)"
        "String_js (Num (c - 1)) = Some (decimal (c - 1))"
        using Num by (simp_all add: num_def)
      show thesis
      proof (cases "c - 1 \<le> 0")
        case False
        with Num d have "r = Inr (upd_entity w3 i (setNameTag (decimal (c - 1))))"
          by (simp add: pe)
        with Num True False show thesis by (intro down [of c]) simp_all
      next
        case le: True
        show thesis
        proof (cases att)
          case None
          with Num d le have "r = (case removeInvalidGenerator w3 d (ex, ey, ez) i of
                     Inl err \<Rightarrow> Inl err
                   | Inr w4 \<Rightarrow> Inr (sendMessage w4 InvalidItemGeneration))"
            by (simp add: pe)
          then show thesis by (rule fail)
        next
          case (Some w4)
          show thesis
          proof (cases "String_js (parseInt (tag_values tag ! 0))")
            case None
            with Num d le Some have "r = Inl (NotTracked, w4)" by (simp add: pe)
            with att [OF Some] show thesis by (intro stop_emitted [of w4]) simp_all
          next
            case (Some l)
            with Num d le \<open>att = Some w4\<close> have "r = Inr (upd_entity w4 i (setNameTag l))"
              by (simp add: pe)
            with att [OF \<open>att = Some w4\<close>] Some show thesis by (intro emit [of w4 l]) simp_all
          qed
        qed
      qed
    qed
  qed
qed

lemma initialized_world:
  fixes l :: string
  assumes "find_entity w i = Some e"
  defines "w1 \<equiv> upd_entity w i (addEffect ''invisibility'' 20)"
  defines "w3 \<equiv> (if \<not> hasTag e ''count_initialized''
                   then upd_entity (upd_entity w1 i (setNameTag l)) i (addTag ''count_initialized'')
                   else w1)"
  shows "find_entity w3 i \<noteq> None" and "broadcasts w3 = broadcasts w" and "items w3 = items w"
    and "blocks w3 = blocks w"
    and "map_option nameTag (find_entity w3 i) = Some (if \<not> hasTag e ''count_initialized'' then l else nameTag e)"
proof -
  have f1: "find_entity w1 i = Some (addEffect ''invisibility'' 20 e)"
    unfolding w1_def by (rule find_entity_upd_same) (simp_all add: assms(1))
  have f2: "find_entity (upd_entity w1 i (setNameTag l)) i = Some (setNameTag l (addEffect ''invisibility'' 20 e))"
    by (rule find_entity_upd_same) (simp_all add: f1)
  have f3: "find_entity (upd_entity (upd_entity w1 i (setNameTag l)) i (addTag ''count_initialized'')) i
      = Some (addTag ''count_initialized'' (setNameTag l (addEffect ''invisibility'' 20 e)))"
    by (rule find_entity_upd_same) (simp_all add: f2)
  show "find_entity w3 i \<noteq> None" by (simp add: w3_def f1 f3)
  show "broadcasts w3 = broadcasts w" "items w3 = items w" "blocks w3 = blocks w"
    by (simp_all add: w3_def w1_def)
  show "map_option nameTag (find_entity w3 i) = Some (if \<not> hasTag e ''count_initialized'' then l else nameTag e)"
    by (simp add: w3_def f1 f3)
qed

lemma find_entity_upd_not_None:
  "find_entity w i \<noteq> None \<Longrightarrow> (\<And>e. eid (f e) = eid e) \<Longrightarrow> find_entity (upd_entity w i f) i \<noteq> None"
  by (simp add: find_entity_upd)

text \<open>
  Claim C2, as amended. The structural validation of \<open>processEntity\<close> probes the block
  100 below the marker, which is the block the generator was placed on, not the barrier
  one below the marker. When that block is air (and the barrier position is
  accessible), the step sets the barrier position to air, removes the marker, broadcasts
  that the generator block is missing, and emits nothing. When that block is not air,
  the step does not take this path: afterwards either the marker still exists and
  nothing was broadcast, or the emission failed and the two messages of that path were
  broadcast. Whether the barrier is present is never tested.
\<close>

theorem C2_structural_validation:
  assumes "find_entity w i = Some e" and "location e = (ex, ey, ez)"
    and "getBlock w d (ex, ey - 100, ez) = Some t"
  shows "(t = ''minecraft:air'' \<and> blocks w (d, block_of (ex, ey - 1, ez)) \<noteq> None \<longrightarrow>
            (\<exists>w'. processEntity new_ItemStack w i d tag = Inr w'
               \<and> blocks w' = (blocks w)((d, block_of (ex, ey - 1, ez)) \<mapsto> ''minecraft:air'')
               \<and> entities w' = filter (\<lambda>x. eid x \<noteq> i) (entities w)
               \<and> broadcasts w' = broadcasts w @ [GeneratorBlockMissing]
               \<and> items w' = items w))
       \<and> (t \<noteq> ''minecraft:air'' \<longrightarrow>
            (find_entity (the_world (processEntity new_ItemStack w i d tag)) i \<noteq> None
               \<and> broadcasts (the_world (processEntity new_ItemStack w i d tag)) = broadcasts w)
            \<or> broadcasts (the_world (processEntity new_ItemStack w i d tag))
                 = broadcasts w @ [InvalidGeneratorRemoved, InvalidItemGeneration])"
proof (intro conjI impI)
  let ?w1 = "upd_entity w i (addEffect ''invisibility'' 20)"
  have g: "getBlock ?w1 d (ex, ey - of_int (BARRIER_OFFSET + 1), ez) = Some t"
    using assms(3) by (simp add: getBlock_def BARRIER_OFFSET_def)
  {
    assume a: "t = ''minecraft:air'' \<and> blocks w (d, block_of (ex, ey - 1, ez)) \<noteq> None"
    have p: "ey - of_int (BARRIER_OFFSET + 1) + of_int BARRIER_OFFSET = ey - 1"
      by (simp add: BARRIER_OFFSET_def)
    show "\<exists>w'. processEntity new_ItemStack w i d tag = Inr w'
               \<and> blocks w' = (blocks w)((d, block_of (ex, ey - 1, ez)) \<mapsto> ''minecraft:air'')
               \<and> entities w' = filter (\<lambda>x. eid x \<noteq> i) (entities w)
               \<and> broadcasts w' = broadcasts w @ [GeneratorBlockMissing]
               \<and> items w' = items w"
      unfolding processEntity_def Let_def assms(1) option.case assms(2) prod.case g p
      using a
      by (simp add: setBlockType_def) (simp add: upd_entity_def filter_upd_kill)
  }
  {
    assume a: "t \<noteq> ''minecraft:air''"
    let ?w3 = "(if \<not> hasTag e ''count_initialized''
       then upd_entity (upd_entity ?w1 i (setNameTag (tag_values tag ! 0))) i (addTag ''count_initialized'')
       else ?w1)"
    let ?r = "processEntity new_ItemStack w i d tag"
    note w3 = initialized_world [OF assms(1), of "tag_values tag ! 0"]
    have keep: "\<exists>y. find_entity (upd_entity x i (setNameTag l)) i = Some y"
      if "entities x = entities ?w3" for x l
    proof -
      have "find_entity x i \<noteq> None" using w3(1) find_entity_cong [OF that, of i] by simp
      then have "find_entity (upd_entity x i (setNameTag l)) i \<noteq> None"
        by (rule find_entity_upd_not_None) simp
      then show ?thesis by simp
    qed
    have alive: "\<exists>y. find_entity x i = Some y" if "entities x = entities ?w3" for x
      using w3(1) find_entity_cong [OF that, of i] by simp
    from assms a refl refl refl
    have "(find_entity (the_world ?r) i \<noteq> None \<and> broadcasts (the_world ?r) = broadcasts w)
            \<or> broadcasts (the_world ?r) = broadcasts w @ [InvalidGeneratorRemoved, InvalidItemGeneration]"
    proof (cases rule: processEntity_present_cases [where mk = new_ItemStack and tag = tag])
      case reset
      then show ?thesis using keep [of ?w3] by (simp add: the_world_def w3)
    next
      case stop
      then show ?thesis using alive [of ?w3] by (simp add: the_world_def w3)
    next
      case (down c)
      then show ?thesis using keep [of ?w3] by (simp add: the_world_def w3)
    next
      case (emit w4 l)
      then show ?thesis using keep [of w4] by (simp add: the_world_def w3)
    next
      case (stop_emitted w4)
      then show ?thesis using alive [of w4] by (simp add: the_world_def w3)
    next
      case fail
      moreover have "\<exists>y. find_entity ?w3 i = Some y" using w3(1) by simp
      ultimately show ?thesis
        by (auto simp: removeInvalidGenerator_def the_world_def w3(2-4)
            split: option.splits dest!: setBlockType_Some)
    qed
    then show "(find_entity (the_world (processEntity new_ItemStack w i d tag)) i \<noteq> None
               \<and> broadcasts (the_world (processEntity new_ItemStack w i d tag)) = broadcasts w)
            \<or> broadcasts (the_world (processEntity new_ItemStack w i d tag))
                 = broadcasts w @ [InvalidGeneratorRemoved, InvalidItemGeneration]" .
  }
qed


theorem C2_structural_validation_witness:
  "find_entity c2_air_world 0 \<noteq> None \<and>
   getBlock c2_air_world Overworld (1/2, 164 - 100, 1/2) = Some ''minecraft:air'' \<and>
   blocks c2_air_world (Overworld, (0, 163, 0)) = Some ''minecraft:barrier'' \<and>
   entities (the_world (processEntity demo_items c2_air_world 0 Overworld ''gen:1,minecraft:diamond,1,0,64,0'')) = [] \<and>
   broadcasts (the_world (processEntity demo_items c2_air_world 0 Overworld ''gen:1,minecraft:diamond,1,0,64,0''))
     = [GeneratorBlockMissing] \<and>
   getBlock c5_world Overworld (1/2, 164 - 100, 1/2) = Some ''minecraft:stone'' \<and>
   broadcasts (the_world (processEntity demo_items c5_world 0 Overworld ''gen:1,minecraft:diamond,1,0,64,0'')) = []"
proof -
  let ?G = "''gen:1,minecraft:diamond,1,0,64,0''"
  let ?e = "marker_entity 0 Overworld (0, 64, 0) ?G ''1'' False"
  have l: "location ?e = (1/2, 164, 1/2)" by (simp add: marker_entity_def)
  have f: "find_entity c2_air_world 0 = Some ?e" by code_simp
  have g: "getBlock c2_air_world Overworld (1/2, 164 - 100, 1/2) = Some ''minecraft:air''" by code_simp
  have acc: "blocks c2_air_world (Overworld, block_of (1/2, 164 - 1, 1/2)) \<noteq> None" by code_simp
  have b: "blocks c2_air_world (Overworld, (0, 163, 0)) = Some ''minecraft:barrier''" by code_simp
  have es: "filter (\<lambda>x. eid x \<noteq> 0) (entities c2_air_world) = []" "broadcasts c2_air_world = []"
    by code_simp+
  have f': "find_entity c5_world 0 = Some ?e" by code_simp
  have g': "getBlock c5_world Overworld (1/2, 164 - 100, 1/2) = Some ''minecraft:stone''" by code_simp
  have bc: "broadcasts c5_world = []" by code_simp
  from C2_structural_validation [OF f l g, of demo_items ?G] acc es
  have 1: "entities (the_world (processEntity demo_items c2_air_world 0 Overworld ?G)) = []"
    "broadcasts (the_world (processEntity demo_items c2_air_world 0 Overworld ?G)) = [GeneratorBlockMissing]"
    by (auto simp: the_world_def)
  from C2_structural_validation [OF f' l g', of demo_items ?G] bc
  have 2: "broadcasts (the_world (processEntity demo_items c5_world 0 Overworld ?G)) = []
      \<or> broadcasts (the_world (processEntity demo_items c5_world 0 Overworld ?G))
          = [InvalidGeneratorRemoved, InvalidItemGeneration]"
    by auto
  have 3: "broadcasts (the_world (processEntity demo_items c5_world 0 Overworld ?G))
      \<noteq> [InvalidGeneratorRemoved, InvalidItemGeneration]"
    by code_simp
  from f g b 1 g' 2 3 show ?thesis by simp
qed

text \<open>
  As stated, C2 fails: with the barrier removed and the targeted block in place, the next
  tick neither removes the marker nor broadcasts anything, and it emits an item.
\<close>

theorem C2_barrier_removed_counterexample:
  "blocks c5_world (Overworld, (0, 163, 0)) = Some ''minecraft:barrier'' \<and>
   blocks c2_world (Overworld, (0, 163, 0)) = Some ''minecraft:air'' \<and>
   blocks c2_world (Overworld, (0, 64, 0)) = Some ''minecraft:stone'' \<and>
   map location (entities c2_world) = [(1/2, 164, 1/2)] \<and>
   fst (run demo_items 1 c2_world) = [] \<and>
   map location (entities (snd (run demo_items 1 c2_world))) = [(1/2, 164, 1/2)] \<and>
   broadcasts (snd (run demo_items 1 c2_world)) = [] \<and>
   items (snd (run demo_items 1 c2_world)) = [(Overworld, (''minecraft:diamond'', 1), (1/2, 66, 1/2))]"
  by code_simp








section \<open>Defects of the tick processor and of Placement Setup (claims C3 and C4)\<close>

text \<open>
  Claim C3 does not hold of the code. \<open>removeInvalidGenerator\<close> adds the barrier offset to
  the position it is given, and \<open>processEntity\<close> gives it the position of the marker, 100
  above the generator block. For a generator on \<open>(0, 64, 0)\<close> whose item does not exist,
  the failed emission removes the marker and broadcasts both messages, but the block set
  to air is the one at height 263; the barrier at height 163 stays.
\<close>

theorem C3_anchor_left_in_place:
  "blocks c3_world (Overworld, (0, 163, 0)) = Some ''minecraft:barrier'' \<and>
   blocks c3_world (Overworld, (0, 263, 0)) = Some ''minecraft:stone'' \<and>
   map location (entities c3_world) = [(1/2, 164, 1/2)] \<and>
   fst (run demo_items 1 c3_world) = [] \<and>
   entities (snd (run demo_items 1 c3_world)) = [] \<and>
   items (snd (run demo_items 1 c3_world)) = [] \<and>
   broadcasts (snd (run demo_items 1 c3_world)) = [InvalidGeneratorRemoved, InvalidItemGeneration] \<and>
   blocks (snd (run demo_items 1 c3_world)) (Overworld, (0, 163, 0)) = Some ''minecraft:barrier'' \<and>
   blocks (snd (run demo_items 1 c3_world)) (Overworld, (0, 263, 0)) = Some ''minecraft:air''"
  by code_simp

text \<open>
  Claim C4 does not hold of the code. \<open>setUpArmorStand\<close> always spawns a new marker and
  never removes one: after configuring the same block with interval 5 and then with
  interval 10, two markers stand on the same position, the scan finds both, and the
  first configuration keeps emitting with period 5 beside the second one.
\<close>

theorem C4_reconfiguration_duplicates:
  "map location (entities c4_world) = [(1/2, 164, 1/2), (1/2, 164, 1/2)] \<and>
   entitiesWithGenTag c4_world =
     [(0, Overworld, ''gen:5,minecraft:diamond,1,0,64,0''), (1, Overworld, ''gen:10,minecraft:diamond,2,0,64,0'')] \<and>
   fst (run demo_items 5 c4_world) = [] \<and>
   items (snd (run demo_items 5 c4_world)) = [(Overworld, (''minecraft:diamond'', 1), (1/2, 66, 1/2))] \<and>
   items (snd (run demo_items 10 c4_world)) =
     [(Overworld, (''minecraft:diamond'', 1), (1/2, 66, 1/2)),
      (Overworld, (''minecraft:diamond'', 1), (1/2, 66, 1/2)),
      (Overworld, (''minecraft:diamond'', 2), (1/2, 66, 1/2))]"
  by code_simp

end
